theory Spec2Isabelle
  imports Complex_Main "HOL-Library.Sublist"
begin

section \<open>Python values\<close>

text \<open>
  A Python \<open>str\<close> is a sequence of Unicode code points, so it is modelled as a list of
  natural numbers (the code points), not as a list of 8-bit characters. Literals of the
  program are written as Isabelle strings and converted by \<open>lit\<close>.
  An \<open>Optional[str]\<close> argument is a \<open>pystr option\<close>. A Python \<open>float\<close> similarity score is
  a real number: the scores are only ever compared with the two thresholds, and for a
  double \<open>s\<close> the comparison with the double nearest to 0.90 agrees with the comparison
  with the real number 0.90 (0.75 is a double itself).
\<close>

type_synonym pystr = "nat list"

definition lit :: "string \<Rightarrow> pystr" where
  "lit cs = map of_char cs"

text \<open>\<open>x or d\<close> for an optional string \<open>x\<close>: \<open>None\<close> and the empty string are falsy.\<close>

definition py_or :: "pystr option \<Rightarrow> pystr \<Rightarrow> pystr" where
  "py_or x d = (case x of None \<Rightarrow> d | Some s \<Rightarrow> if s = [] then d else s)"

text \<open>The slice \<open>s[:n]\<close>: a negative \<open>n\<close> counts from the end of the sequence.\<close>

definition py_slice_to :: "'a list \<Rightarrow> int \<Rightarrow> 'a list" where
  "py_slice_to s n = (if 0 \<le> n then take (nat n) s else take (nat (int (length s) + n)) s)"

section \<open>Constants of \<open>graph_sync.py\<close>\<close>

definition RELATES_TO_THRESHOLD :: real where
  "RELATES_TO_THRESHOLD = 0.75"

definition SUPERSEDES_THRESHOLD :: real where
  "SUPERSEDES_THRESHOLD = 0.90"

definition MAX_RELATIONS_PER_MEMORY :: nat where
  "MAX_RELATIONS_PER_MEMORY = 5"

section \<open>The sanitizer\<close>

text \<open>
  \<open>_sanitize_string(s, max_len)\<close>: a falsy \<open>s\<close> (\<open>None\<close> or the empty string) gives the empty
  string; otherwise the string is cut to \<open>s[:max_len]\<close>, then the characters of the class
  \<open>['"\\`]\<close> (code points 39, 34, 92, 96) are deleted, then every character of the class
  \<open>[\\x00-\\x1f]\<close> is replaced by one space (code point 32).
\<close>

definition quote_like :: "nat \<Rightarrow> bool" where
  "quote_like c = (c = 39 \<or> c = 34 \<or> c = 92 \<or> c = 96)"

definition control_char :: "nat \<Rightarrow> bool" where
  "control_char c = (c \<le> 31)"

definition sanitize_string :: "pystr option \<Rightarrow> int \<Rightarrow> pystr" where
  "sanitize_string s max_len =
     (case s of
        None \<Rightarrow> []
      | Some s0 \<Rightarrow>
          if s0 = [] then []
          else
            let s1 = py_slice_to s0 max_len;
                s2 = filter (\<lambda>c. \<not> quote_like c) s1;
                s3 = map (\<lambda>c. if control_char c then 32 else c) s2
            in s3)"

section \<open>The edge classifier\<close>

text \<open>
  The \<open>if\<close>/\<open>elif\<close> chain on the similarity score in the loop of \<open>sync_with_provenance\<close>
  (without an \<open>else\<close>: a score below both thresholds creates nothing).
\<close>

datatype edge_class = Supersedes | RelatesTo | NoEdge

definition classify :: "real \<Rightarrow> edge_class" where
  "classify similarity =
     (if similarity \<ge> SUPERSEDES_THRESHOLD then Supersedes
      else if similarity \<ge> RELATES_TO_THRESHOLD then RelatesTo
      else NoEdge)"

section \<open>Query texts\<close>

text \<open>
  A query is an f-string. It is kept as the list of its pieces: the literal segments, the
  interpolated strings (inserted as they are) and the interpolated numbers (formatted by
  Python). \<open>render\<close> gives the flat text for given number formatters.
\<close>

datatype piece = Lit string | Str pystr | Flt real | Num int

type_synonym fstring = "piece list"

fun render_piece :: "(real \<Rightarrow> pystr) \<Rightarrow> (int \<Rightarrow> pystr) \<Rightarrow> piece \<Rightarrow> pystr" where
  "render_piece ff fi (Lit cs) = lit cs"
| "render_piece ff fi (Str s) = s"
| "render_piece ff fi (Flt x) = ff x"
| "render_piece ff fi (Num i) = fi i"

definition render :: "(real \<Rightarrow> pystr) \<Rightarrow> (int \<Rightarrow> pystr) \<Rightarrow> fstring \<Rightarrow> pystr" where
  "render ff fi q = concat (map (render_piece ff fi) q)"

text \<open>
  A string with none of the characters that the sanitizer deletes or replaces. Between the
  quotes of a query text such a string is one string literal of the query language, and
  its value is the string itself. A string with a quote or a backslash can end the literal
  early, and the text is then another query (or none). The content hashes of the spec
  (``opaque fixed-format string'', ``system-generated'') and the readings of the clock
  are plain.
\<close>

definition plain :: "pystr \<Rightarrow> bool" where
  "plain s = list_all (\<lambda>c. \<not> quote_like c \<and> \<not> control_char c) s"

definition plain_opt :: "pystr option \<Rightarrow> bool" where
  "plain_opt x = (case x of None \<Rightarrow> True | Some s \<Rightarrow> plain s)"

definition sq :: string where
  "sq = [CHR 0x27]"

definition nl :: string where
  "nl = [CHR 0x0A]"

definition sp :: "nat \<Rightarrow> string" where
  "sp n = replicate n (CHR '' '')"

definition node_exists_query :: "pystr \<Rightarrow> fstring" where
  "node_exists_query content_hash =
     [Lit (''MATCH (m:Memory {hash: '' @ sq), Str content_hash, Lit (sq @ ''}) RETURN m.hash'')]"

definition create_node_query :: "pystr \<Rightarrow> pystr \<Rightarrow> pystr \<Rightarrow> pystr \<Rightarrow> fstring" where
  "create_node_query content_hash preview created mem_type =
     [Lit (nl @ sp 16 @ ''CREATE (m:Memory {'' @ nl @ sp 20 @ ''hash: '' @ sq), Str content_hash,
      Lit (sq @ '','' @ nl @ sp 20 @ ''content_preview: '' @ sq), Str preview,
      Lit (sq @ '','' @ nl @ sp 20 @ ''created_at: '' @ sq), Str created,
      Lit (sq @ '','' @ nl @ sp 20 @ ''memory_type: '' @ sq), Str mem_type,
      Lit (sq @ nl @ sp 16 @ ''})'' @ nl @ sp 12)]"

definition relates_to_query :: "pystr \<Rightarrow> pystr \<Rightarrow> real \<Rightarrow> pystr \<Rightarrow> fstring" where
  "relates_to_query from_hash to_hash strength created =
     [Lit (nl @ sp 16 @ ''MATCH (a:Memory {hash: '' @ sq), Str from_hash,
      Lit (sq @ ''}), (b:Memory {hash: '' @ sq), Str to_hash,
      Lit (sq @ ''})'' @ nl @ sp 16 @ ''CREATE (a)-[:RELATES_TO {strength: ''), Flt strength,
      Lit ('', created_at: '' @ sq), Str created,
      Lit (sq @ ''}]->(b)'' @ nl @ sp 12)]"

definition supersedes_query :: "pystr \<Rightarrow> pystr \<Rightarrow> pystr \<Rightarrow> pystr \<Rightarrow> fstring" where
  "supersedes_query new_hash old_hash reason_safe created =
     [Lit (nl @ sp 16 @ ''MATCH (new:Memory {hash: '' @ sq), Str new_hash,
      Lit (sq @ ''}), (old:Memory {hash: '' @ sq), Str old_hash,
      Lit (sq @ ''})'' @ nl @ sp 16 @ ''CREATE (new)-[:SUPERSEDES {reason: '' @ sq), Str reason_safe,
      Lit (sq @ '', created_at: '' @ sq), Str created,
      Lit (sq @ ''}]->(old)'' @ nl @ sp 12)]"

definition contradicts_query :: "pystr \<Rightarrow> pystr \<Rightarrow> pystr \<Rightarrow> pystr \<Rightarrow> fstring" where
  "contradicts_query hash_a hash_b detected resolution_safe =
     [Lit (nl @ sp 16 @ ''MATCH (a:Memory {hash: '' @ sq), Str hash_a,
      Lit (sq @ ''}), (b:Memory {hash: '' @ sq), Str hash_b,
      Lit (sq @ ''})'' @ nl @ sp 16 @ ''CREATE (a)-[:CONTRADICTS {detected_at: '' @ sq), Str detected,
      Lit (sq @ '', resolution: '' @ sq), Str resolution_safe,
      Lit (sq @ ''}]->(b)'' @ nl @ sp 12)]"

definition stub_preview :: pystr where
  "stub_preview = lit ''(stub - created for edge)''"

definition stub_type :: pystr where
  "stub_type = lit ''stub''"

definition create_stub_query :: "pystr \<Rightarrow> pystr \<Rightarrow> fstring" where
  "create_stub_query content_hash created =
     [Lit (nl @ sp 16 @ ''CREATE (m:Memory {'' @ nl @ sp 20 @ ''hash: '' @ sq), Str content_hash,
      Lit (sq @ '','' @ nl @ sp 20 @ ''content_preview: '' @ sq @ ''(stub - created for edge)'' @ sq
           @ '','' @ nl @ sp 20 @ ''created_at: '' @ sq), Str created,
      Lit (sq @ '','' @ nl @ sp 20 @ ''memory_type: '' @ sq @ ''stub'' @ sq @ nl @ sp 16 @ ''})''
           @ nl @ sp 12)]"

definition provenance_chain_query :: "pystr \<Rightarrow> int \<Rightarrow> fstring" where
  "provenance_chain_query content_hash depth =
     [Lit (nl @ sp 16 @ ''MATCH path = (m:Memory {hash: '' @ sq), Str content_hash,
      Lit (sq @ ''})-[r:SUPERSEDES|RELATES_TO*1..''), Num depth,
      Lit ('']->(related:Memory)'' @ nl @ sp 16
           @ ''RETURN related.hash, related.content_preview, type(r), length(path)'' @ nl @ sp 16
           @ ''ORDER BY length(path)'' @ nl @ sp 12)]"

definition count_nodes_query :: fstring where
  "count_nodes_query = [Lit ''MATCH (m:Memory) RETURN count(m)'']"

definition count_edges_query :: "string \<Rightarrow> fstring" where
  "count_edges_query edge_type = [Lit ''MATCH ()-[r:'', Lit edge_type, Lit '']->() RETURN count(r)'']"

section \<open>The graph store\<close>

text \<open>
  The embedded graph store is outside the source; this is its model. A node of the table
  \<open>Memory\<close> has the four properties the queries write, an edge has its two endpoints
  (by hash) and its label with the label's properties.
\<close>

record node =
  n_hash :: pystr
  n_content_preview :: pystr
  n_created_at :: pystr
  n_memory_type :: pystr

datatype rel =
    RELATES_TO real pystr
  | SUPERSEDES pystr pystr
  | CONTRADICTS pystr pystr

record edge =
  e_src :: pystr
  e_dst :: pystr
  e_rel :: rel

fun label :: "rel \<Rightarrow> string" where
  "label (RELATES_TO strength created) = ''RELATES_TO''"
| "label (SUPERSEDES reason created) = ''SUPERSEDES''"
| "label (CONTRADICTS detected resolution) = ''CONTRADICTS''"

datatype exn = ConnectionFailure | QueryFailure | ConstraintViolation

text \<open>
  The state of the world a call runs in: the two tables of the store; the failures the
  store is going to have (one entry for each coming \<open>conn.execute\<close>, \<open>Some e\<close> when that call
  raises \<open>e\<close> whatever its query, no entry meaning no failure); the query texts handed to
  the store so far; the reading of the clock (\<open>datetime.now().isoformat()\<close>); and the
  answer of the store's path matching to the variable-length pattern of
  \<open>get_provenance_chain\<close>, whose rows (hash, preview, relationship, path length) are taken
  as given.
\<close>

record db =
  nodes :: "node list"
  edges :: "edge list"
  faults :: "exn option list"
  sent :: "fstring list"
  now :: pystr
  path_rows :: "pystr \<Rightarrow> int \<Rightarrow> (pystr \<times> pystr \<times> pystr \<times> int) list"

datatype stmt =
    MatchNode pystr
  | CreateNode node
  | MatchCreateEdge pystr pystr rel
  | MatchPath pystr int
  | CountNodes
  | CountEdges string

datatype qresult =
    NoRows
  | HashRows "pystr list"
  | PathRows "(pystr \<times> pystr \<times> pystr \<times> int) list"
  | CountRow nat

datatype 'a outcome = Raised exn | Returned 'a

type_synonym 'a prog = "db \<Rightarrow> 'a outcome \<times> db"

definition ret :: "'a \<Rightarrow> 'a prog" where
  "ret v = (\<lambda>g. (Returned v, g))"

definition and_then :: "'a prog \<Rightarrow> ('a \<Rightarrow> 'b prog) \<Rightarrow> 'b prog" where
  "and_then m f = (\<lambda>g. case m g of (Raised e, g') \<Rightarrow> (Raised e, g') | (Returned v, g') \<Rightarrow> f v g')"

text \<open>\<open>try: m except Exception as e: h e\<close>\<close>

definition try_except :: "'a prog \<Rightarrow> (exn \<Rightarrow> 'a prog) \<Rightarrow> 'a prog" where
  "try_except m h = (\<lambda>g. case m g of (Raised e, g') \<Rightarrow> h e g' | (Returned v, g') \<Rightarrow> (Returned v, g'))"

definition matching :: "db \<Rightarrow> pystr \<Rightarrow> node list" where
  "matching g h = filter (\<lambda>n. n_hash n = h) (nodes g)"

text \<open>
  Modelled from the spec: the schema of the table \<open>Memory\<close> is not in the source. The spec
  has the content hash as the primary key of a node (``identified by a content hash
  (opaque fixed-format string, primary key, globally unique)''), so a \<open>CREATE\<close> of a node
  whose hash is already in the table raises and changes nothing.

  The other statements follow the query language: \<open>MATCH (a {hash: x}), (b {hash: y}) CREATE
  (a)-[..]->(b)\<close> creates one edge for every pair of matching nodes (none when an endpoint
  is missing, and \<open>a\<close> and \<open>b\<close> may be the same node) and raises nothing.

  The source hands the store the text alone. Each operation below gives \<open>execute\<close> the text
  together with the statement that the text denotes when the hashes and timestamps
  interpolated into it are \<open>plain\<close>. With a quote or a backslash in one of them the store
  reads another query from the same text (a probe for another node, more patterns, more
  clauses), which this statement does not describe. The theorems below about the nodes
  and edges that calls create (the cap of a sync, self-loops, stubs) are therefore stated
  for plain hashes and timestamps. The query texts themselves, and what an operation
  returns when the store raises, do not depend on this.
\<close>

fun run_stmt :: "stmt \<Rightarrow> qresult prog" where
  "run_stmt (MatchNode h) g = (Returned (HashRows (map n_hash (matching g h))), g)"
| "run_stmt (CreateNode n) g =
     (if matching g (n_hash n) \<noteq> [] then (Raised ConstraintViolation, g)
      else (Returned NoRows, g\<lparr>nodes := nodes g @ [n]\<rparr>))"
| "run_stmt (MatchCreateEdge a b r) g =
     (Returned NoRows,
      g\<lparr>edges := edges g @
           replicate (length (matching g a) * length (matching g b))
             \<lparr>e_src = a, e_dst = b, e_rel = r\<rparr>\<rparr>)"
| "run_stmt (MatchPath h depth) g = (Returned (PathRows (path_rows g h depth)), g)"
| "run_stmt CountNodes g = (Returned (CountRow (length (nodes g))), g)"
| "run_stmt (CountEdges l) g =
     (Returned (CountRow (length (filter (\<lambda>e. label (e_rel e) = l) (edges g)))), g)"

definition next_fault :: "db \<Rightarrow> exn option" where
  "next_fault g = (case faults g of [] \<Rightarrow> None | f # fs \<Rightarrow> f)"

definition handed :: "fstring \<Rightarrow> db \<Rightarrow> db" where
  "handed q g = g\<lparr>faults := tl (faults g), sent := sent g @ [q]\<rparr>"

text \<open>\<open>self.conn.execute(text)\<close>, where \<open>st\<close> is the statement the text denotes.\<close>

definition execute :: "fstring \<Rightarrow> stmt \<Rightarrow> qresult prog" where
  "execute q st g =
     (case next_fault g of
        Some e \<Rightarrow> (Raised e, handed q g)
      | None \<Rightarrow> run_stmt st (handed q g))"

fun has_next :: "qresult \<Rightarrow> bool" where
  "has_next NoRows = False"
| "has_next (HashRows hs) = (hs \<noteq> [])"
| "has_next (PathRows rs) = (rs \<noteq> [])"
| "has_next (CountRow n) = True"

text \<open>\<open>result.get_next()[0]\<close> of a counting query.\<close>

fun get_next_0 :: "qresult \<Rightarrow> nat prog" where
  "get_next_0 (CountRow n) = ret n"
| "get_next_0 r = (\<lambda>g. (Raised QueryFailure, g))"

definition isoformat_now :: "pystr prog" where
  "isoformat_now = (\<lambda>g. (Returned (now g), g))"

text \<open>\<open>created_at or datetime.now().isoformat()\<close>\<close>

definition or_now :: "pystr option \<Rightarrow> pystr prog" where
  "or_now created_at =
     (case created_at of
        None \<Rightarrow> isoformat_now
      | Some s \<Rightarrow> if s = [] then isoformat_now else ret s)"

section \<open>The operations of \<open>GraphSync\<close>\<close>

text \<open>The calls of the logger have no effect on the store or on the results and are left out.\<close>

definition node_exists :: "pystr \<Rightarrow> bool prog" where
  "node_exists content_hash =
     try_except
       (and_then (execute (node_exists_query content_hash) (MatchNode content_hash))
          (\<lambda>result. ret (has_next result)))
       (\<lambda>e. ret False)"

definition add_memory_node :: "pystr \<Rightarrow> pystr \<Rightarrow> pystr option \<Rightarrow> pystr option \<Rightarrow> bool prog" where
  "add_memory_node content_hash content memory_type created_at =
     and_then (node_exists content_hash) (\<lambda>exists.
       if exists then ret False
       else
         try_except
           (let preview = sanitize_string (Some content) 200;
                mem_type = sanitize_string (Some (py_or memory_type (lit ''unknown''))) 50
            in and_then (or_now created_at) (\<lambda>created.
               and_then
                 (execute (create_node_query content_hash preview created mem_type)
                    (CreateNode \<lparr>n_hash = content_hash, n_content_preview = preview,
                                 n_created_at = created, n_memory_type = mem_type\<rparr>))
                 (\<lambda>_. ret True)))
           (\<lambda>e. ret False))"

definition add_relates_to :: "pystr \<Rightarrow> pystr \<Rightarrow> real \<Rightarrow> pystr option \<Rightarrow> bool prog" where
  "add_relates_to from_hash to_hash strength created_at =
     try_except
       (and_then (or_now created_at) (\<lambda>created.
          and_then
            (execute (relates_to_query from_hash to_hash strength created)
               (MatchCreateEdge from_hash to_hash (RELATES_TO strength created)))
            (\<lambda>_. ret True)))
       (\<lambda>e. ret False)"

definition add_supersedes :: "pystr \<Rightarrow> pystr \<Rightarrow> pystr \<Rightarrow> pystr option \<Rightarrow> bool prog" where
  "add_supersedes new_hash old_hash reason created_at =
     try_except
       (and_then (or_now created_at) (\<lambda>created.
          let reason_safe = sanitize_string (Some reason) 100
          in and_then
               (execute (supersedes_query new_hash old_hash reason_safe created)
                  (MatchCreateEdge new_hash old_hash (SUPERSEDES reason_safe created)))
               (\<lambda>_. ret True)))
       (\<lambda>e. ret False)"

definition add_contradicts :: "pystr \<Rightarrow> pystr \<Rightarrow> pystr \<Rightarrow> pystr option \<Rightarrow> bool prog" where
  "add_contradicts hash_a hash_b resolution detected_at =
     try_except
       (and_then (or_now detected_at) (\<lambda>detected.
          let resolution_safe = sanitize_string (Some resolution) 100
          in and_then
               (execute (contradicts_query hash_a hash_b detected resolution_safe)
                  (MatchCreateEdge hash_a hash_b (CONTRADICTS detected resolution_safe)))
               (\<lambda>_. ret True)))
       (\<lambda>e. ret False)"

definition ensure_node_exists :: "pystr \<Rightarrow> bool prog" where
  "ensure_node_exists content_hash =
     and_then (node_exists content_hash) (\<lambda>exists.
       if exists then ret True
       else
         try_except
           (and_then isoformat_now (\<lambda>created.
              and_then
                (execute (create_stub_query content_hash created)
                   (CreateNode \<lparr>n_hash = content_hash, n_content_preview = stub_preview,
                                n_created_at = created, n_memory_type = stub_type\<rparr>))
                (\<lambda>_. ret True)))
           (\<lambda>e. ret False))"

record sync_result =
  node_created :: bool
  relates_to :: "pystr list"
  supersedes :: "pystr list"
  contradicts :: "pystr list"

text \<open>A \<open>for\<close> loop over a list that updates a local value.\<close>

fun for_each :: "'a list \<Rightarrow> ('a \<Rightarrow> 'r \<Rightarrow> 'r prog) \<Rightarrow> 'r \<Rightarrow> 'r prog" where
  "for_each [] body r = ret r"
| "for_each (x # xs) body r = and_then (body x r) (\<lambda>r'. for_each xs body r')"

text \<open>The body of the loop of \<open>sync_with_provenance\<close> for one candidate.\<close>

definition sync_candidate :: "pystr \<Rightarrow> pystr \<times> real \<Rightarrow> sync_result \<Rightarrow> sync_result prog" where
  "sync_candidate content_hash cand result =
     (case cand of (related_hash, similarity) \<Rightarrow>
        if related_hash = content_hash then ret result
        else
          and_then (ensure_node_exists related_hash) (\<lambda>_.
            case classify similarity of
              Supersedes \<Rightarrow>
                and_then
                  (add_supersedes content_hash related_hash (lit ''High similarity update'') None)
                  (\<lambda>ok. ret (if ok then result\<lparr>supersedes := supersedes result @ [related_hash]\<rparr>
                              else result))
            | RelatesTo \<Rightarrow>
                and_then (add_relates_to content_hash related_hash similarity None)
                  (\<lambda>ok. ret (if ok then result\<lparr>relates_to := relates_to result @ [related_hash]\<rparr>
                              else result))
            | NoEdge \<Rightarrow> ret result))"

definition sync_with_provenance ::
  "pystr \<Rightarrow> pystr \<Rightarrow> pystr option \<Rightarrow> pystr option \<Rightarrow> (pystr \<times> real) list \<Rightarrow> sync_result prog" where
  "sync_with_provenance content_hash content memory_type created_at similar_memories =
     and_then (add_memory_node content_hash content memory_type created_at) (\<lambda>created.
       let result = \<lparr>node_created = created, relates_to = [], supersedes = [], contradicts = []\<rparr>
       in if \<not> node_created result then ret result
          else for_each (take MAX_RELATIONS_PER_MEMORY similar_memories)
                 (sync_candidate content_hash) result)"

record chain_entry =
  ce_hash :: pystr
  ce_preview :: pystr
  ce_relationship :: pystr
  ce_depth :: int

text \<open>The \<open>while result.has_next()\<close> loop: one entry for each row, in the order of the rows.\<close>

fun chain_of :: "qresult \<Rightarrow> chain_entry list" where
  "chain_of (PathRows rs) =
     map (\<lambda>(h, p, t, d). \<lparr>ce_hash = h, ce_preview = p, ce_relationship = t, ce_depth = d\<rparr>) rs"
| "chain_of r = []"

definition get_provenance_chain :: "pystr \<Rightarrow> int \<Rightarrow> chain_entry list prog" where
  "get_provenance_chain content_hash depth =
     try_except
       (and_then (execute (provenance_chain_query content_hash depth) (MatchPath content_hash depth))
          (\<lambda>result. ret (chain_of result)))
       (\<lambda>e. ret [])"

datatype stats = Stats "(string \<times> nat) list" | StatsError exn

definition lower :: "string \<Rightarrow> string" where
  "lower cs =
     map (\<lambda>c. let n = (of_char c :: nat) in if 65 \<le> n \<and> n \<le> 90 then char_of (n + 32) else c) cs"

definition startswith :: "string \<Rightarrow> string \<Rightarrow> bool" where
  "startswith k p = (take (length p) k = p)"

definition edge_types :: "string list" where
  "edge_types = [''RELATES_TO'', ''SUPERSEDES'', ''CONTRADICTS'', ''CAUSED_BY'', ''DERIVED_FROM'']"

definition count_edge_type :: "string \<Rightarrow> (string \<times> nat) list \<Rightarrow> (string \<times> nat) list prog" where
  "count_edge_type edge_type st =
     and_then (execute (count_edges_query edge_type) (CountEdges edge_type)) (\<lambda>result.
       and_then (get_next_0 result) (\<lambda>n. ret (st @ [(''edges_'' @ lower edge_type, n)])))"

definition get_stats :: "stats prog" where
  "get_stats =
     try_except
       (and_then (execute count_nodes_query CountNodes) (\<lambda>result.
        and_then (get_next_0 result) (\<lambda>n.
        and_then (for_each edge_types count_edge_type [(''nodes'', n)]) (\<lambda>st.
        ret (Stats (st @ [(''total_edges'',
               sum_list (map snd (filter (\<lambda>(k, v). startswith k ''edges_'') st)))]))))))
       (\<lambda>e. ret (StatsError e))"

section \<open>States and calls used in the statements\<close>

text \<open>A store with no node and no edge, whose coming failures are \<open>fs\<close>.\<close>

definition fresh_store :: "exn option list \<Rightarrow> db" where
  "fresh_store fs =
     \<lparr>nodes = [], edges = [], faults = fs, sent = [], now = lit ''2024-01-01T00:00:00'',
      path_rows = (\<lambda>h depth. [])\<rparr>"

text \<open>The invariant of the primary key: no two nodes of the table have the same hash.\<close>

definition primary_key :: "db \<Rightarrow> bool" where
  "primary_key g = distinct (map n_hash (nodes g))"

definition has_node :: "db \<Rightarrow> pystr \<Rightarrow> bool" where
  "has_node g h = (matching g h \<noteq> [])"

definition no_self_loop :: "db \<Rightarrow> bool" where
  "no_self_loop g = list_all (\<lambda>e. e_src e \<noteq> e_dst e) (edges g)"

text \<open>The public operations as values, and the state a call leaves behind.\<close>

datatype call =
    NodeExists pystr
  | AddMemoryNode pystr pystr "pystr option" "pystr option"
  | AddRelatesTo pystr pystr real "pystr option"
  | AddSupersedes pystr pystr pystr "pystr option"
  | AddContradicts pystr pystr pystr "pystr option"
  | EnsureNodeExists pystr
  | SyncWithProvenance pystr pystr "pystr option" "pystr option" "(pystr \<times> real) list"
  | GetProvenanceChain pystr int
  | GetStats

fun run_call :: "call \<Rightarrow> db \<Rightarrow> db" where
  "run_call (NodeExists h) g = snd (node_exists h g)"
| "run_call (AddMemoryNode h c t ca) g = snd (add_memory_node h c t ca g)"
| "run_call (AddRelatesTo a b s ca) g = snd (add_relates_to a b s ca g)"
| "run_call (AddSupersedes a b r ca) g = snd (add_supersedes a b r ca g)"
| "run_call (AddContradicts a b r da) g = snd (add_contradicts a b r da g)"
| "run_call (EnsureNodeExists h) g = snd (ensure_node_exists h g)"
| "run_call (SyncWithProvenance h c t ca cands) g = snd (sync_with_provenance h c t ca cands g)"
| "run_call (GetProvenanceChain h d) g = snd (get_provenance_chain h d g)"
| "run_call GetStats g = snd (get_stats g)"

definition run_calls :: "call list \<Rightarrow> db \<Rightarrow> db" where
  "run_calls cs g = foldl (\<lambda>g' c. run_call c g') g cs"

text \<open>A direct call of an edge primitive with two different hashes; any other call.\<close>

fun distinct_endpoints :: "call \<Rightarrow> bool" where
  "distinct_endpoints (AddRelatesTo a b s ca) = (a \<noteq> b)"
| "distinct_endpoints (AddSupersedes a b r ca) = (a \<noteq> b)"
| "distinct_endpoints (AddContradicts a b r da) = (a \<noteq> b)"
| "distinct_endpoints c = True"

text \<open>
  The strings that a call interpolates into its query texts as they are (the hashes, and
  \<open>created_at\<close> or \<open>detected_at\<close> when given) are plain. Of the candidates of a sync only the
  first \<open>MAX_RELATIONS_PER_MEMORY\<close> reach a query.
\<close>

definition plain_sync :: "pystr \<Rightarrow> pystr option \<Rightarrow> (pystr \<times> real) list \<Rightarrow> bool" where
  "plain_sync h ca cands =
     (plain h \<and> plain_opt ca \<and>
      list_all (\<lambda>c. plain (fst c)) (take MAX_RELATIONS_PER_MEMORY cands))"

fun plain_call :: "call \<Rightarrow> bool" where
  "plain_call (NodeExists h) = plain h"
| "plain_call (AddMemoryNode h c t ca) = (plain h \<and> plain_opt ca)"
| "plain_call (AddRelatesTo a b s ca) = (plain a \<and> plain b \<and> plain_opt ca)"
| "plain_call (AddSupersedes a b r ca) = (plain a \<and> plain b \<and> plain_opt ca)"
| "plain_call (AddContradicts a b r da) = (plain a \<and> plain b \<and> plain_opt da)"
| "plain_call (EnsureNodeExists h) = plain h"
| "plain_call (SyncWithProvenance h c t ca cands) = plain_sync h ca cands"
| "plain_call (GetProvenanceChain h d) = plain h"
| "plain_call GetStats = True"

text \<open>The node that \<open>ensure_node_exists\<close> creates for the hash \<open>h\<close> at the time \<open>t\<close>.\<close>

definition stub_node :: "pystr \<Rightarrow> pystr \<Rightarrow> node" where
  "stub_node h t =
     \<lparr>n_hash = h, n_content_preview = stub_preview, n_created_at = t, n_memory_type = stub_type\<rparr>"



text \<open>The hashes of the candidates of \<open>cs\<close> other than the new hash \<open>h\<close>, in the order of \<open>cs\<close>.\<close>

definition others :: "pystr \<Rightarrow> (pystr \<times> real) list \<Rightarrow> pystr list" where
  "others h cs = map fst (filter (\<lambda>c. fst c \<noteq> h) cs)"

text \<open>
  What a run of the loop of \<open>sync_with_provenance\<close> for the new hash \<open>h\<close> over the candidates
  \<open>cs\<close> may do, from the result and state before to the result and state after: it adds
  stubs \<open>ns\<close> for hashes without a node, edges \<open>es\<close> from \<open>h\<close> whose endpoints exist, and the
  hashes \<open>rs\<close> and \<open>ss\<close> to the two result lists, all of them for candidates of \<open>others h cs\<close>
  and in their order.
\<close>

definition sync_effect ::
  "pystr \<Rightarrow> (pystr \<times> real) list \<Rightarrow> sync_result \<times> db \<Rightarrow> sync_result \<times> db \<Rightarrow> bool" where
  "sync_effect h cs = (\<lambda>(r, g) (r', g').
     now g' = now g \<and> node_created r' = node_created r \<and> contradicts r' = contradicts r \<and>
     (\<exists>ns es rs ss.
        nodes g' = nodes g @ ns \<and> edges g' = edges g @ es \<and>
        relates_to r' = relates_to r @ rs \<and> supersedes r' = supersedes r @ ss \<and>
        list_all (\<lambda>n. n = stub_node (n_hash n) (now g) \<and> \<not> has_node g (n_hash n)) ns \<and>
        distinct (map n_hash ns) \<and> subseq (map n_hash ns) (others h cs) \<and>
        list_all (\<lambda>e. e_src e = h \<and> has_node g' h \<and> has_node g' (e_dst e)) es \<and>
        set (map e_dst es) \<subseteq> set (others h cs) \<and>
        subseq rs (others h cs) \<and> subseq ss (others h cs) \<and>
        length rs + length ss \<le> length (others h cs) \<and>
        (primary_key g \<longrightarrow> primary_key g' \<and> subseq (map e_dst es) (others h cs))))"



text \<open>The result \<open>sync_with_provenance\<close> starts from.\<close>

definition empty_result :: "bool \<Rightarrow> sync_result" where
  "empty_result b = \<lparr>node_created = b, relates_to = [], supersedes = [], contradicts = []\<rparr>"

text \<open>A program that leaves the component \<open>f\<close> of the state as it is, whatever it returns.\<close>

definition keeps :: "(db \<Rightarrow> 'b) \<Rightarrow> 'a prog \<Rightarrow> bool" where
  "keeps f m = (\<forall>g. f (snd (m g)) = f g)"

definition self_loop_calls :: "call list" where
  "self_loop_calls =
     [AddMemoryNode (lit ''A'') (lit ''text'') None None,
      AddRelatesTo (lit ''A'') (lit ''A'') 1 None,
      AddSupersedes (lit ''A'') (lit ''A'') (lit ''Updated information'') None,
      AddContradicts (lit ''A'') (lit ''A'') (lit ''unresolved'') None]"

definition mixed_calls :: "call list" where
  "mixed_calls =
     [SyncWithProvenance (lit ''A'') (lit ''text'') None None [(lit ''A'', 0.99), (lit ''B'', 0.8)],
      AddContradicts (lit ''A'') (lit ''B'') (lit ''unresolved'') None,
      GetStats,
      SyncWithProvenance (lit ''C'') (lit ''more'') None None [(lit ''C'', 1), (lit ''A'', 0.95)]]"

text \<open>The number of single quotes (code point 39) in a text.\<close>

definition count_sq :: "pystr \<Rightarrow> nat" where
  "count_sq s = length (filter (\<lambda>c. c = 39) s)"

text \<open>The first failure among the coming \<open>n\<close> statements, if there is one.\<close>

fun first_fault :: "nat \<Rightarrow> exn option list \<Rightarrow> exn option" where
  "first_fault 0 fs = None"
| "first_fault (Suc n) [] = None"
| "first_fault (Suc n) (f # fs) = (case f of Some e \<Rightarrow> Some e | None \<Rightarrow> first_fault n fs)"

text \<open>The counts of a store: what \<open>get_stats\<close> returns when no statement fails.\<close>

definition edge_count :: "db \<Rightarrow> string \<Rightarrow> nat" where
  "edge_count g l = length (filter (\<lambda>e. label (e_rel e) = l) (edges g))"

definition full_stats :: "db \<Rightarrow> (string \<times> nat) list" where
  "full_stats g =
     [(''nodes'', length (nodes g)),
      (''edges_relates_to'', edge_count g ''RELATES_TO''),
      (''edges_supersedes'', edge_count g ''SUPERSEDES''),
      (''edges_contradicts'', edge_count g ''CONTRADICTS''),
      (''edges_caused_by'', edge_count g ''CAUSED_BY''),
      (''edges_derived_from'', edge_count g ''DERIVED_FROM''),
      (''total_edges'',
         edge_count g ''RELATES_TO'' + edge_count g ''SUPERSEDES'' + edge_count g ''CONTRADICTS''
         + edge_count g ''CAUSED_BY'' + edge_count g ''DERIVED_FROM'')]"

section \<open>The edge classifier: thresholds\<close>

text \<open>
  C1. The classifier is a function of the similarity score alone, and the lower edge of
  each band belongs to the band: a score of at least 0.90 gives Supersedes, a score from
  0.75 up to but not including 0.90 gives RelatesTo, a score below 0.75 gives no edge; in
  particular 0.90 gives Supersedes, 0.75 gives RelatesTo, 0.899999 gives RelatesTo and
  0.749999 gives no edge.
\<close>

theorem classify_bands:
  "(s \<ge> 0.90 \<longrightarrow> classify s = Supersedes) \<and>
   (0.75 \<le> s \<and> s < 0.90 \<longrightarrow> classify s = RelatesTo) \<and>
   (s < 0.75 \<longrightarrow> classify s = NoEdge) \<and>
   classify 0.90 = Supersedes \<and> classify 0.75 = RelatesTo \<and>
   classify 0.899999 = RelatesTo \<and> classify 0.749999 = NoEdge"
  by (simp add: classify_def SUPERSEDES_THRESHOLD_def RELATES_TO_THRESHOLD_def)

text \<open>One score inside each band.\<close>

theorem classify_bands_witness:
  "(0.95::real) \<ge> 0.90 \<and> classify 0.95 = Supersedes \<and>
   (0.75::real) \<le> 0.8 \<and> (0.8::real) < 0.90 \<and> classify 0.8 = RelatesTo \<and>
   (0.5::real) < 0.75 \<and> classify 0.5 = NoEdge"
  using classify_bands [of "0.95"] classify_bands [of "0.8"] classify_bands [of "0.5"]
  by simp

section \<open>The sanitizer: what it removes and what it replaces\<close>

lemma length_py_slice_to: "0 \<le> n \<Longrightarrow> int (length (py_slice_to s n)) \<le> n"
  by (simp add: py_slice_to_def)

lemma sanitize_string_Some:
  "sanitize_string (Some s) n =
     map (\<lambda>c. if control_char c then 32 else c) (filter (\<lambda>c. \<not> quote_like c) (py_slice_to s n))"
  by (simp add: sanitize_string_def py_slice_to_def)

lemma sanitize_string_clean:
  "c \<in> set (sanitize_string x n) \<Longrightarrow> \<not> quote_like c \<and> \<not> control_char c"
  by (cases x) (auto simp: sanitize_string_def quote_like_def control_char_def Let_def split: if_splits)

lemma length_sanitize_string:
  assumes n: "0 \<le> n"
  shows "int (length (sanitize_string x n)) \<le> n"
proof (cases x)
  case None
  with n show ?thesis by (simp add: sanitize_string_def)
next
  case (Some s)
  have "length (sanitize_string (Some s) n) \<le> length (py_slice_to s n)"
    by (simp add: sanitize_string_Some)
  with length_py_slice_to [OF n, of s] Some show ?thesis by simp
qed

text \<open>
  C5, as the claim states it, fails: a control character is not removed but replaced by a
  space (\<open>a\<close>, newline, \<open>b\<close> gives \<open>a b\<close>, not \<open>ab\<close>), the control character DEL
  (code point 127) is kept, and a negative maximum length does not bound the length of the
  output.
\<close>

theorem sanitize_string_counterexample:
  "sanitize_string (Some [97, 10, 98]) 10 = [97, 32, 98] \<and>
   sanitize_string (Some [97, 10, 98]) 10 \<noteq> [97, 98] \<and>
   127 \<in> set (sanitize_string (Some [97, 127, 98]) 10) \<and>
   \<not> int (length (sanitize_string (Some [97, 98, 99]) (- 1))) \<le> - 1"
  by (simp add: sanitize_string_def py_slice_to_def quote_like_def control_char_def)

text \<open>
  C5, amended. For every input and maximum length \<open>n\<close>: an absent or empty input gives the
  empty string; otherwise the input is cut to \<open>s[:n]\<close>, single quotes, double quotes,
  backticks and backslashes are removed, and every control character with a code point from
  0 to 31 is replaced by one space. So the output contains no quote, backtick, backslash or
  character with a code point up to 31, and for \<open>n \<ge> 0\<close> its length is at most \<open>n\<close>.
\<close>

theorem sanitize_string_amended:
  "sanitize_string None n = [] \<and> sanitize_string (Some []) n = [] \<and>
   sanitize_string (Some s) n =
     map (\<lambda>c. if c \<le> 31 then 32 else c)
       (filter (\<lambda>c. c \<noteq> 39 \<and> c \<noteq> 34 \<and> c \<noteq> 92 \<and> c \<noteq> 96) (py_slice_to s n)) \<and>
   (\<forall>c \<in> set (sanitize_string x n). c \<noteq> 39 \<and> c \<noteq> 34 \<and> c \<noteq> 92 \<and> c \<noteq> 96 \<and> 31 < c) \<and>
   (0 \<le> n \<longrightarrow> int (length (sanitize_string x n)) \<le> n)"
proof -
  have a: "sanitize_string None n = [] \<and> sanitize_string (Some []) n = []"
    by (simp add: sanitize_string_def)
  have b: "sanitize_string (Some s) n =
     map (\<lambda>c. if c \<le> 31 then 32 else c)
       (filter (\<lambda>c. c \<noteq> 39 \<and> c \<noteq> 34 \<and> c \<noteq> 92 \<and> c \<noteq> 96) (py_slice_to s n))"
    by (simp add: sanitize_string_Some quote_like_def control_char_def)
  have c: "\<forall>c \<in> set (sanitize_string x n). c \<noteq> 39 \<and> c \<noteq> 34 \<and> c \<noteq> 92 \<and> c \<noteq> 96 \<and> 31 < c"
  proof
    fix c assume "c \<in> set (sanitize_string x n)"
    from sanitize_string_clean [OF this]
    show "c \<noteq> 39 \<and> c \<noteq> 34 \<and> c \<noteq> 92 \<and> c \<noteq> 96 \<and> 31 < c"
      by (simp add: quote_like_def control_char_def)
  qed
  from a b c length_sanitize_string [of n x] show ?thesis by blast
qed

text \<open>
  An input of 13 characters with one of each kind, cut to 10: the four quote-like
  characters are gone, the newline is a space, DEL stays.
\<close>

theorem sanitize_string_amended_witness:
  "sanitize_string (Some [97, 39, 34, 96, 92, 10, 98, 127, 99, 100, 101, 102, 103]) 10
     = [97, 32, 98, 127, 99, 100] \<and>
   (0::int) \<le> 10 \<and>
   int (length (sanitize_string (Some [97, 39, 34, 96, 92, 10, 98, 127, 99, 100, 101, 102, 103]) 10)) \<le> 10 \<and>
   97 \<in> set (sanitize_string (Some [97, 39, 34, 96, 92, 10, 98, 127, 99, 100, 101, 102, 103]) 10) \<and>
   39 \<notin> set (sanitize_string (Some [97, 39, 34, 96, 92, 10, 98, 127, 99, 100, 101, 102, 103]) 10)"
  using sanitize_string_amended
    [of 10 "[97, 39, 34, 96, 92, 10, 98, 127, 99, 100, 101, 102, 103]"
        "Some [97, 39, 34, 96, 92, 10, 98, 127, 99, 100, 101, 102, 103]"]
  by (simp add: py_slice_to_def)

section \<open>Running the operations: what each one returns and leaves behind\<close>

lemma ret_apply [simp]: "ret v g = (Returned v, g)"
  by (simp add: ret_def)

lemma and_then_Returned: "m g = (Returned v, g1) \<Longrightarrow> and_then m f g = f v g1"
  by (simp add: and_then_def)

lemma and_then_Raised: "m g = (Raised e, g1) \<Longrightarrow> and_then m f g = (Raised e, g1)"
  by (simp add: and_then_def)

lemma try_except_Returned: "m g = (Returned v, g1) \<Longrightarrow> try_except m h g = (Returned v, g1)"
  by (simp add: try_except_def)

lemma try_except_Raised: "m g = (Raised e, g1) \<Longrightarrow> try_except m h g = h e g1"
  by (simp add: try_except_def)

lemma handed_fields [simp]:
  "nodes (handed q g) = nodes g" "edges (handed q g) = edges g"
  "faults (handed q g) = tl (faults g)" "sent (handed q g) = sent g @ [q]"
  "now (handed q g) = now g" "path_rows (handed q g) = path_rows g"
  by (simp_all add: handed_def)

lemma matching_handed [simp]: "matching (handed q g) h = matching g h"
  by (simp add: matching_def)

lemma has_node_handed [simp]: "has_node (handed q g) h = has_node g h"
  by (simp add: has_node_def)

lemma execute_fault: "next_fault g = Some e \<Longrightarrow> execute q st g = (Raised e, handed q g)"
  by (simp add: execute_def)

lemma execute_run: "next_fault g = None \<Longrightarrow> execute q st g = run_stmt st (handed q g)"
  by (simp add: execute_def)

lemma or_now_eq: "or_now ca g = (Returned (py_or ca (now g)), g)"
  by (simp add: or_now_def py_or_def isoformat_now_def split: option.splits)

lemma node_exists_eq:
  "node_exists h g = (Returned (next_fault g = None \<and> has_node g h), handed (node_exists_query h) g)"
proof (cases "next_fault g")
  case None
  then show ?thesis
    by (simp add: node_exists_def try_except_def and_then_def execute_run has_node_def)
next
  case (Some e)
  then show ?thesis
    by (simp add: node_exists_def try_except_def and_then_def execute_fault)
qed

text \<open>The shape shared by the three edge primitives.\<close>

lemma create_edge_eq:
  "try_except
     (and_then (or_now ca) (\<lambda>c. and_then (execute (Q c) (MatchCreateEdge a b (R c))) (\<lambda>_. ret True)))
     (\<lambda>e. ret False) g =
   (if next_fault g = None
    then (Returned True,
          (handed (Q (py_or ca (now g))) g)
            \<lparr>edges := edges g @
               replicate (length (matching g a) * length (matching g b))
                 \<lparr>e_src = a, e_dst = b, e_rel = R (py_or ca (now g))\<rparr>\<rparr>)
    else (Returned False, handed (Q (py_or ca (now g))) g))"
proof (cases "next_fault g")
  case None
  then show ?thesis
    by (simp add: try_except_def and_then_def or_now_eq execute_run)
next
  case (Some e)
  then show ?thesis
    by (simp add: try_except_def and_then_def or_now_eq execute_fault)
qed

lemma add_relates_to_eq:
  "add_relates_to a b s ca g =
   (if next_fault g = None
    then (Returned True,
          (handed (relates_to_query a b s (py_or ca (now g))) g)
            \<lparr>edges := edges g @
               replicate (length (matching g a) * length (matching g b))
                 \<lparr>e_src = a, e_dst = b, e_rel = RELATES_TO s (py_or ca (now g))\<rparr>\<rparr>)
    else (Returned False, handed (relates_to_query a b s (py_or ca (now g))) g))"
  unfolding add_relates_to_def by (rule create_edge_eq)

lemma add_supersedes_eq:
  "add_supersedes a b r ca g =
   (if next_fault g = None
    then (Returned True,
          (handed (supersedes_query a b (sanitize_string (Some r) 100) (py_or ca (now g))) g)
            \<lparr>edges := edges g @
               replicate (length (matching g a) * length (matching g b))
                 \<lparr>e_src = a, e_dst = b,
                  e_rel = SUPERSEDES (sanitize_string (Some r) 100) (py_or ca (now g))\<rparr>\<rparr>)
    else (Returned False,
          handed (supersedes_query a b (sanitize_string (Some r) 100) (py_or ca (now g))) g))"
  unfolding add_supersedes_def Let_def by (rule create_edge_eq)

lemma add_contradicts_eq:
  "add_contradicts a b r da g =
   (if next_fault g = None
    then (Returned True,
          (handed (contradicts_query a b (py_or da (now g)) (sanitize_string (Some r) 100)) g)
            \<lparr>edges := edges g @
               replicate (length (matching g a) * length (matching g b))
                 \<lparr>e_src = a, e_dst = b,
                  e_rel = CONTRADICTS (py_or da (now g)) (sanitize_string (Some r) 100)\<rparr>\<rparr>)
    else (Returned False,
          handed (contradicts_query a b (py_or da (now g)) (sanitize_string (Some r) 100)) g))"
  unfolding add_contradicts_def Let_def by (rule create_edge_eq)

text \<open>The shape shared by the two node-creating operations, after the probe.\<close>

lemma create_node_eq:
  "try_except (and_then (execute q (CreateNode n)) (\<lambda>_. ret True)) (\<lambda>e. ret False) g =
   (if next_fault g = None \<and> \<not> has_node g (n_hash n)
    then (Returned True, (handed q g)\<lparr>nodes := nodes g @ [n]\<rparr>)
    else (Returned False, handed q g))"
proof (cases "next_fault g")
  case None
  then show ?thesis
    by (simp add: try_except_def and_then_def execute_run has_node_def)
next
  case (Some e)
  then show ?thesis
    by (simp add: try_except_def and_then_def execute_fault)
qed

lemma add_memory_node_eq:
  "add_memory_node h c mt ca g =
   (let g1 = handed (node_exists_query h) g;
        preview = sanitize_string (Some c) 200;
        mem_type = sanitize_string (Some (py_or mt (lit ''unknown''))) 50;
        created = py_or ca (now g);
        q = create_node_query h preview created mem_type
    in if next_fault g = None \<and> has_node g h then (Returned False, g1)
       else if next_fault g1 = None \<and> \<not> has_node g h
       then (Returned True,
             (handed q g1)\<lparr>nodes := nodes g @
                [\<lparr>n_hash = h, n_content_preview = preview, n_created_at = created,
                  n_memory_type = mem_type\<rparr>]\<rparr>)
       else (Returned False, handed q g1))"
proof -
  have *: "try_except
        (and_then (or_now ca) (\<lambda>created. and_then (execute (Q created) (CreateNode (N created))) (\<lambda>_. ret True)))
        (\<lambda>e. ret False) g1 =
      try_except (and_then (execute (Q (py_or ca (now g1))) (CreateNode (N (py_or ca (now g1))))) (\<lambda>_. ret True))
        (\<lambda>e. ret False) g1" for Q N g1
    by (simp add: try_except_def and_then_def or_now_eq)
  show ?thesis
    unfolding add_memory_node_def Let_def
    by (subst and_then_Returned [OF node_exists_eq]) (simp add: * create_node_eq)
qed

lemma ensure_node_exists_eq:
  "ensure_node_exists h g =
   (let g1 = handed (node_exists_query h) g;
        q = create_stub_query h (now g)
    in if next_fault g = None \<and> has_node g h then (Returned True, g1)
       else if next_fault g1 = None \<and> \<not> has_node g h
       then (Returned True,
             (handed q g1)\<lparr>nodes := nodes g @
                [\<lparr>n_hash = h, n_content_preview = stub_preview, n_created_at = now g,
                  n_memory_type = stub_type\<rparr>]\<rparr>)
       else (Returned False, handed q g1))"
proof -
  have *: "try_except
        (and_then isoformat_now (\<lambda>created. and_then (execute (Q created) (CreateNode (N created))) (\<lambda>_. ret True)))
        (\<lambda>e. ret False) g1 =
      try_except (and_then (execute (Q (now g1)) (CreateNode (N (now g1)))) (\<lambda>_. ret True))
        (\<lambda>e. ret False) g1" for Q N g1
    by (simp add: try_except_def and_then_def isoformat_now_def)
  show ?thesis
    unfolding ensure_node_exists_def
    by (subst and_then_Returned [OF node_exists_eq]) (simp add: * create_node_eq Let_def)
qed

section \<open>One candidate of the loop\<close>

lemma ensure_node_exists_effect:
  obtains b g1 where "ensure_node_exists c g = (Returned b, g1)"
    "edges g1 = edges g" "now g1 = now g"
    "nodes g1 = nodes g \<or> (\<not> has_node g c \<and> nodes g1 = nodes g @ [stub_node c (now g)])"
proof -
  have "\<exists>b g1. ensure_node_exists c g = (Returned b, g1) \<and> edges g1 = edges g \<and> now g1 = now g \<and>
          (nodes g1 = nodes g \<or> (\<not> has_node g c \<and> nodes g1 = nodes g @ [stub_node c (now g)]))"
    by (auto simp: ensure_node_exists_eq Let_def stub_node_def)
  then show ?thesis using that by blast
qed

lemma add_supersedes_effect:
  obtains ok g2 where "add_supersedes a b r ca g = (Returned ok, g2)"
    "nodes g2 = nodes g" "now g2 = now g"
    "edges g2 = edges g @ replicate (if ok then length (matching g a) * length (matching g b) else 0)
        \<lparr>e_src = a, e_dst = b, e_rel = SUPERSEDES (sanitize_string (Some r) 100) (py_or ca (now g))\<rparr>"
proof -
  have "\<exists>ok g2. add_supersedes a b r ca g = (Returned ok, g2) \<and> nodes g2 = nodes g \<and> now g2 = now g \<and>
    edges g2 = edges g @ replicate (if ok then length (matching g a) * length (matching g b) else 0)
        \<lparr>e_src = a, e_dst = b, e_rel = SUPERSEDES (sanitize_string (Some r) 100) (py_or ca (now g))\<rparr>"
    by (auto simp: add_supersedes_eq)
  then show ?thesis using that by blast
qed

lemma add_relates_to_effect:
  obtains ok g2 where "add_relates_to a b s ca g = (Returned ok, g2)"
    "nodes g2 = nodes g" "now g2 = now g"
    "edges g2 = edges g @ replicate (if ok then length (matching g a) * length (matching g b) else 0)
        \<lparr>e_src = a, e_dst = b, e_rel = RELATES_TO s (py_or ca (now g))\<rparr>"
proof -
  have "\<exists>ok g2. add_relates_to a b s ca g = (Returned ok, g2) \<and> nodes g2 = nodes g \<and> now g2 = now g \<and>
    edges g2 = edges g @ replicate (if ok then length (matching g a) * length (matching g b) else 0)
        \<lparr>e_src = a, e_dst = b, e_rel = RELATES_TO s (py_or ca (now g))\<rparr>"
    by (auto simp: add_relates_to_eq)
  then show ?thesis using that by blast
qed

lemma matching_cong: "nodes g' = nodes g \<Longrightarrow> matching g' h = matching g h"
  by (simp add: matching_def)

lemma sync_candidate_self: "sync_candidate h (h, s) r g = (Returned r, g)"
  by (simp add: sync_candidate_def)

lemma sync_candidate_other:
  assumes "c \<noteq> h"
  obtains r' g' ns k e where
    "sync_candidate h (c, s) r g = (Returned r', g')"
    "nodes g' = nodes g @ ns" "ns = [] \<or> (\<not> has_node g c \<and> ns = [stub_node c (now g)])"
    "edges g' = edges g @ replicate k e" "e_src e = h" "e_dst e = c"
    "k = 0 \<or> k = length (matching g' h) * length (matching g' c)"
    "now g' = now g"
    "r' = r \<or> r' = r\<lparr>supersedes := supersedes r @ [c]\<rparr> \<or> r' = r\<lparr>relates_to := relates_to r @ [c]\<rparr>"
proof -
  obtain b g1 where en: "ensure_node_exists c g = (Returned b, g1)"
    and e1: "edges g1 = edges g" and t1: "now g1 = now g"
    and n1: "nodes g1 = nodes g \<or> (\<not> has_node g c \<and> nodes g1 = nodes g @ [stub_node c (now g)])"
    by (rule ensure_node_exists_effect)
  from n1 obtain ns where ns: "nodes g1 = nodes g @ ns"
    "ns = [] \<or> (\<not> has_node g c \<and> ns = [stub_node c (now g)])"
    by auto
  have step: "sync_candidate h (c, s) r g =
      (case classify s of
         Supersedes \<Rightarrow>
           and_then (add_supersedes h c (lit ''High similarity update'') None)
             (\<lambda>ok. ret (if ok then r\<lparr>supersedes := supersedes r @ [c]\<rparr> else r))
       | RelatesTo \<Rightarrow>
           and_then (add_relates_to h c s None)
             (\<lambda>ok. ret (if ok then r\<lparr>relates_to := relates_to r @ [c]\<rparr> else r))
       | NoEdge \<Rightarrow> ret r) g1"
    using assms by (simp add: sync_candidate_def and_then_Returned [where m = "ensure_node_exists c", OF en])
  show ?thesis
  proof (cases "classify s")
    case Supersedes
    obtain ok g2 where ad: "add_supersedes h c (lit ''High similarity update'') None g1 = (Returned ok, g2)"
      and n2: "nodes g2 = nodes g1" and t2: "now g2 = now g1"
      and e2: "edges g2 = edges g1 @ replicate (if ok then length (matching g1 h) * length (matching g1 c) else 0)
        \<lparr>e_src = h, e_dst = c, e_rel = SUPERSEDES (sanitize_string (Some (lit ''High similarity update'')) 100) (py_or None (now g1))\<rparr>"
      by (rule add_supersedes_effect)
    have "sync_candidate h (c, s) r g = (Returned (if ok then r\<lparr>supersedes := supersedes r @ [c]\<rparr> else r), g2)"
      using step Supersedes
      by (simp add: and_then_Returned [where m = "add_supersedes h c (lit ''High similarity update'') None", OF ad])
    then show ?thesis
      using that [of "if ok then r\<lparr>supersedes := supersedes r @ [c]\<rparr> else r" g2 ns
          "if ok then length (matching g1 h) * length (matching g1 c) else 0"
          "\<lparr>e_src = h, e_dst = c, e_rel = SUPERSEDES (sanitize_string (Some (lit ''High similarity update'')) 100) (py_or None (now g1))\<rparr>"]
        ns n2 t2 t1 e1 e2 matching_cong [OF n2]
      by (cases ok) simp_all
  next
    case RelatesTo
    obtain ok g2 where ad: "add_relates_to h c s None g1 = (Returned ok, g2)"
      and n2: "nodes g2 = nodes g1" and t2: "now g2 = now g1"
      and e2: "edges g2 = edges g1 @ replicate (if ok then length (matching g1 h) * length (matching g1 c) else 0)
        \<lparr>e_src = h, e_dst = c, e_rel = RELATES_TO s (py_or None (now g1))\<rparr>"
      by (rule add_relates_to_effect)
    have "sync_candidate h (c, s) r g = (Returned (if ok then r\<lparr>relates_to := relates_to r @ [c]\<rparr> else r), g2)"
      using step RelatesTo
      by (simp add: and_then_Returned [where m = "add_relates_to h c s None", OF ad])
    then show ?thesis
      using that [of "if ok then r\<lparr>relates_to := relates_to r @ [c]\<rparr> else r" g2 ns
          "if ok then length (matching g1 h) * length (matching g1 c) else 0"
          "\<lparr>e_src = h, e_dst = c, e_rel = RELATES_TO s (py_or None (now g1))\<rparr>"]
        ns n2 t2 t1 e1 e2 matching_cong [OF n2]
      by (cases ok) simp_all
  next
    case NoEdge
    have "sync_candidate h (c, s) r g = (Returned r, g1)"
      using step NoEdge by simp
    then show ?thesis
      using that [of r g1 ns 0 "\<lparr>e_src = h, e_dst = c, e_rel = RELATES_TO s []\<rparr>"] ns t1 e1
      by simp
  qed
qed


section \<open>The loop over the candidates\<close>

lemma for_each_Cons_Returned:
  "body x r g = (Returned r1, g1) \<Longrightarrow> for_each (x # xs) body r g = for_each xs body r1 g1"
  by (simp add: and_then_def)

lemma has_node_iff: "has_node g x \<longleftrightarrow> x \<in> n_hash ` set (nodes g)"
  by (auto simp: has_node_def matching_def filter_empty_conv)

lemma has_node_mono: "nodes g' = nodes g @ ns \<Longrightarrow> has_node g x \<Longrightarrow> has_node g' x"
  by (auto simp: has_node_iff)

lemma length_filter_distinct:
  "distinct (map f xs) \<Longrightarrow> length (filter (\<lambda>n. f n = x) xs) \<le> 1"
proof (induction xs)
  case Nil
  then show ?case by simp
next
  case (Cons a xs)
  show ?case
  proof (cases "f a = x")
    case True
    from Cons.prems have "f a \<notin> f ` set xs" by simp
    with True have "\<forall>n\<in>set xs. f n \<noteq> x" by (metis imageI)
    then have "filter (\<lambda>n. f n = x) xs = []"
      by (simp add: filter_empty_conv)
    with True show ?thesis by simp
  next
    case False
    with Cons show ?thesis by simp
  qed
qed

lemma primary_key_matching: "primary_key g \<Longrightarrow> length (matching g x) \<le> 1"
  unfolding primary_key_def matching_def by (rule length_filter_distinct)

lemma sync_effect_Nil: "sync_effect h [] (r, g) (r, g)"
  by (simp add: sync_effect_def others_def)

lemma others_self: "others h ((h, s) # cs) = others h cs"
  by (simp add: others_def)

lemma others_other: "c \<noteq> h \<Longrightarrow> others h ((c, s) # cs) = c # others h cs"
  by (simp add: others_def)

lemma sync_effect_self: "sync_effect h cs a b \<Longrightarrow> sync_effect h ((h, s) # cs) a b"
  by (simp add: sync_effect_def others_self split: prod.splits)

lemma sync_effect_step:
  assumes ch: "c \<noteq> h"
    and n1: "nodes g1 = nodes g @ ns1"
    and ns1: "ns1 = [] \<or> (\<not> has_node g c \<and> ns1 = [stub_node c (now g)])"
    and e1: "edges g1 = edges g @ replicate k e"
    and e: "e_src e = h" "e_dst e = c"
    and k: "k = 0 \<or> k = length (matching g1 h) * length (matching g1 c)"
    and t1: "now g1 = now g"
    and r1: "r1 = r \<or> r1 = r\<lparr>supersedes := supersedes r @ [c]\<rparr> \<or> r1 = r\<lparr>relates_to := relates_to r @ [c]\<rparr>"
    and rest: "sync_effect h cs (r1, g1) (r', g')"
  shows "sync_effect h ((c, s) # cs) (r, g) (r', g')"
proof -
  let ?os = "others h cs"
  from rest obtain ns2 es2 rs2 ss2 where
    t2: "now g' = now g1" and nc: "node_created r' = node_created r1"
    and co: "contradicts r' = contradicts r1"
    and n2: "nodes g' = nodes g1 @ ns2" and e2: "edges g' = edges g1 @ es2"
    and rr: "relates_to r' = relates_to r1 @ rs2" and sr: "supersedes r' = supersedes r1 @ ss2"
    and st2: "list_all (\<lambda>n. n = stub_node (n_hash n) (now g1) \<and> \<not> has_node g1 (n_hash n)) ns2"
    and d2: "distinct (map n_hash ns2)" and sn2: "subseq (map n_hash ns2) ?os"
    and ed2: "list_all (\<lambda>e. e_src e = h \<and> has_node g' h \<and> has_node g' (e_dst e)) es2"
    and ds2: "set (map e_dst es2) \<subseteq> set ?os"
    and srs: "subseq rs2 ?os" and sss: "subseq ss2 ?os"
    and len: "length rs2 + length ss2 \<le> length ?os"
    and pk2: "primary_key g1 \<longrightarrow> primary_key g' \<and> subseq (map e_dst es2) ?os"
    unfolding sync_effect_def by auto
  from r1 obtain rs1 ss1 where r1': "relates_to r1 = relates_to r @ rs1"
    "supersedes r1 = supersedes r @ ss1" "node_created r1 = node_created r"
    "contradicts r1 = contradicts r"
    and rs1: "(rs1 = [] \<and> ss1 = []) \<or> (rs1 = [c] \<and> ss1 = []) \<or> (rs1 = [] \<and> ss1 = [c])"
    by (elim disjE) auto
  have os: "others h ((c, s) # cs) = c # ?os" using ch by (rule others_other)
  have a1: "nodes g' = nodes g @ (ns1 @ ns2)" using n1 n2 by simp
  have a2: "edges g' = edges g @ (replicate k e @ es2)" using e1 e2 by simp
  have a3: "relates_to r' = relates_to r @ (rs1 @ rs2)" using rr r1' by simp
  have a4: "supersedes r' = supersedes r @ (ss1 @ ss2)" using sr r1' by simp
  have mono: "has_node g x \<Longrightarrow> has_node g1 x" for x using n1 by (rule has_node_mono)
  have mono': "has_node g1 x \<Longrightarrow> has_node g' x" for x using n2 by (rule has_node_mono)
  have a5: "list_all (\<lambda>n. n = stub_node (n_hash n) (now g) \<and> \<not> has_node g (n_hash n)) (ns1 @ ns2)"
  proof -
    have "list_all (\<lambda>n. n = stub_node (n_hash n) (now g) \<and> \<not> has_node g (n_hash n)) ns1"
      using ns1 by (auto simp: stub_node_def)
    moreover have "list_all (\<lambda>n. n = stub_node (n_hash n) (now g) \<and> \<not> has_node g (n_hash n)) ns2"
      using st2 t1 mono by (auto simp: list_all_iff)
    ultimately show ?thesis by simp
  qed
  have a6: "distinct (map n_hash (ns1 @ ns2))"
  proof (cases "ns1 = []")
    case True
    with d2 show ?thesis by simp
  next
    case False
    with ns1 have eq: "ns1 = [stub_node c (now g)]" by simp
    have "has_node g1 c" using n1 eq by (simp add: has_node_iff stub_node_def)
    with st2 have "c \<notin> n_hash ` set ns2" by (auto simp: list_all_iff)
    with d2 eq show ?thesis by (simp add: stub_node_def)
  qed
  have a7: "subseq (map n_hash (ns1 @ ns2)) (c # ?os)"
  proof (cases "ns1 = []")
    case True
    with sn2 show ?thesis by (simp add: list_emb_Cons)
  next
    case False
    with ns1 have "ns1 = [stub_node c (now g)]" by simp
    with sn2 show ?thesis by (simp add: stub_node_def)
  qed
  have a8: "list_all (\<lambda>e. e_src e = h \<and> has_node g' h \<and> has_node g' (e_dst e)) (replicate k e @ es2)"
  proof -
    have "list_all (\<lambda>e. e_src e = h \<and> has_node g' h \<and> has_node g' (e_dst e)) (replicate k e)"
    proof (cases "k = 0")
      case True
      then show ?thesis by simp
    next
      case False
      with k have "length (matching g1 h) * length (matching g1 c) \<noteq> 0" by simp
      then have "has_node g1 h" "has_node g1 c" by (auto simp: has_node_def)
      then have "has_node g' h" "has_node g' c" using mono' by blast+
      with e show ?thesis by (simp add: list_all_iff)
    qed
    with ed2 show ?thesis by simp
  qed
  have a9: "set (map e_dst (replicate k e @ es2)) \<subseteq> set (c # ?os)"
    using ds2 e by auto
  have a10: "subseq (rs1 @ rs2) (c # ?os)" "subseq (ss1 @ ss2) (c # ?os)"
    "length (rs1 @ rs2) + length (ss1 @ ss2) \<le> length (c # ?os)"
    using rs1 srs sss len by (auto intro: list_emb_Cons)
  have a11: "primary_key g \<longrightarrow> primary_key g' \<and> subseq (map e_dst (replicate k e @ es2)) (c # ?os)"
  proof
    assume pk: "primary_key g"
    have pk1: "primary_key g1"
    proof (cases "ns1 = []")
      case True
      with pk n1 show ?thesis by (simp add: primary_key_def)
    next
      case False
      with ns1 have "\<not> has_node g c" "ns1 = [stub_node c (now g)]" by simp_all
      with pk n1 show ?thesis by (auto simp: primary_key_def has_node_iff stub_node_def)
    qed
    with pk2 have pk': "primary_key g'" and se: "subseq (map e_dst es2) ?os" by simp_all
    have "k \<le> 1"
    proof (cases "k = 0")
      case True
      then show ?thesis by simp
    next
      case False
      with k have "k = length (matching g1 h) * length (matching g1 c)" by simp
      moreover have "length (matching g1 h) \<le> 1" "length (matching g1 c) \<le> 1"
        using pk1 by (rule primary_key_matching)+
      ultimately show ?thesis by (metis mult_le_mono nat_mult_1)
    qed
    then have "k = 0 \<or> k = 1" by arith
    then have "subseq (map e_dst (replicate k e @ es2)) (c # ?os)"
      using se e by (auto intro: list_emb_Cons)
    with pk' show "primary_key g' \<and> subseq (map e_dst (replicate k e @ es2)) (c # ?os)" by simp
  qed
  have top: "now g' = now g \<and> node_created r' = node_created r \<and> contradicts r' = contradicts r"
    using t1 t2 nc co r1' by simp
  show ?thesis
    unfolding sync_effect_def os
    using top a1 a2 a3 a4 a5 a6 a7 a8 a9 a10 a11
    by (simp only: prod.case) blast
qed

lemma sync_loop:
  "\<exists>r' g'. for_each cs (sync_candidate h) r g = (Returned r', g') \<and> sync_effect h cs (r, g) (r', g')"
proof (induction cs arbitrary: r g)
  case Nil
  show ?case by (simp add: sync_effect_Nil)
next
  case (Cons x cs)
  obtain c s where x: "x = (c, s)" by (cases x)
  show ?case
  proof (cases "c = h")
    case True
    from Cons.IH [of r g] obtain r' g' where
      l: "for_each cs (sync_candidate h) r g = (Returned r', g')"
      and ef: "sync_effect h cs (r, g) (r', g')"
      by blast
    have eq: "for_each ((h, s) # cs) (sync_candidate h) r g = for_each cs (sync_candidate h) r g"
      by (rule for_each_Cons_Returned [where body = "sync_candidate h", OF sync_candidate_self])
    have "sync_effect h ((h, s) # cs) (r, g) (r', g')"
      using ef by (rule sync_effect_self)
    then show ?thesis
      unfolding x True using eq l by simp
  next
    case False
    obtain r1 g1 ns k e where st: "sync_candidate h (c, s) r g = (Returned r1, g1)"
      and f: "nodes g1 = nodes g @ ns" "ns = [] \<or> (\<not> has_node g c \<and> ns = [stub_node c (now g)])"
      "edges g1 = edges g @ replicate k e" "e_src e = h" "e_dst e = c"
      "k = 0 \<or> k = length (matching g1 h) * length (matching g1 c)"
      "now g1 = now g"
      "r1 = r \<or> r1 = r\<lparr>supersedes := supersedes r @ [c]\<rparr> \<or> r1 = r\<lparr>relates_to := relates_to r @ [c]\<rparr>"
      using sync_candidate_other [OF False, of s r g] by blast
    from Cons.IH [of r1 g1] obtain r' g' where
      l: "for_each cs (sync_candidate h) r1 g1 = (Returned r', g')"
      and ef: "sync_effect h cs (r1, g1) (r', g')"
      by blast
    have "sync_effect h ((c, s) # cs) (r, g) (r', g')"
      using False f ef by (rule sync_effect_step)
    moreover have "for_each ((c, s) # cs) (sync_candidate h) r g = for_each cs (sync_candidate h) r1 g1"
      by (rule for_each_Cons_Returned [where body = "sync_candidate h", OF st])
    ultimately show ?thesis
      unfolding x using l by simp
  qed
qed

section \<open>A whole call of \<open>sync_with_provenance\<close>\<close>

lemma add_memory_node_effect:
  obtains b g1 where "add_memory_node h c mt ca g = (Returned b, g1)"
    "edges g1 = edges g" "now g1 = now g"
    "b \<longrightarrow> \<not> has_node g h \<and> (\<exists>n. n_hash n = h \<and> nodes g1 = nodes g @ [n])"
    "\<not> b \<longrightarrow> nodes g1 = nodes g"
proof -
  have "\<exists>b g1. add_memory_node h c mt ca g = (Returned b, g1) \<and> edges g1 = edges g \<and> now g1 = now g \<and>
      (b \<longrightarrow> \<not> has_node g h \<and> (\<exists>n. n_hash n = h \<and> nodes g1 = nodes g @ [n])) \<and>
      (\<not> b \<longrightarrow> nodes g1 = nodes g)"
    by (auto simp: add_memory_node_eq Let_def)
  then show ?thesis using that by blast
qed

lemma sync_with_provenance_cases:
  obtains (existing) g1 where
      "sync_with_provenance h c mt ca cands g = (Returned (empty_result False), g1)"
      "nodes g1 = nodes g" "edges g1 = edges g" "now g1 = now g"
  | (created) n g1 r' g' where
      "\<not> has_node g h" "n_hash n = h" "nodes g1 = nodes g @ [n]" "edges g1 = edges g" "now g1 = now g"
      "sync_with_provenance h c mt ca cands g = (Returned r', g')"
      "sync_effect h (take MAX_RELATIONS_PER_MEMORY cands) (empty_result True, g1) (r', g')"
proof -
  obtain b g1 where am: "add_memory_node h c mt ca g = (Returned b, g1)"
    and f: "edges g1 = edges g" "now g1 = now g"
    and t: "b \<longrightarrow> \<not> has_node g h \<and> (\<exists>n. n_hash n = h \<and> nodes g1 = nodes g @ [n])"
    and u: "\<not> b \<longrightarrow> nodes g1 = nodes g"
    by (rule add_memory_node_effect)
  have unf: "sync_with_provenance h c mt ca cands g =
      (if \<not> b then (Returned (empty_result b), g1)
       else for_each (take MAX_RELATIONS_PER_MEMORY cands) (sync_candidate h) (empty_result b) g1)"
    unfolding sync_with_provenance_def
    by (subst and_then_Returned [where m = "add_memory_node h c mt ca", OF am])
       (simp add: Let_def empty_result_def)
  show ?thesis
  proof (cases b)
    case False
    with unf f u existing show ?thesis by simp
  next
    case True
    from sync_loop [of "take MAX_RELATIONS_PER_MEMORY cands" h "empty_result True" g1]
    obtain r' g' where
      "for_each (take MAX_RELATIONS_PER_MEMORY cands) (sync_candidate h) (empty_result True) g1 = (Returned r', g')"
      "sync_effect h (take MAX_RELATIONS_PER_MEMORY cands) (empty_result True, g1) (r', g')"
      by blast
    with True unf f t created show ?thesis by auto
  qed
qed



lemma self_not_in_others: "h \<notin> set (others h cs)"
  by (auto simp: others_def)


section \<open>The cap on the edges of one call\<close>




section \<open>A second sync of the same hash\<close>

text \<open>
  C3. When the node of the given hash exists already, \<open>sync_with_provenance\<close> returns
  \<open>node_created = False\<close> with the three lists empty, the nodes and the edges of the store
  are what they were, and nothing of the call depends on the candidates (the call with any
  candidate list is the call with the empty list).
\<close>

theorem sync_existing_node:
  "has_node g h \<Longrightarrow>
   fst (sync_with_provenance h c mt ca cands g) =
     Returned \<lparr>node_created = False, relates_to = [], supersedes = [], contradicts = []\<rparr> \<and>
   nodes (snd (sync_with_provenance h c mt ca cands g)) = nodes g \<and>
   edges (snd (sync_with_provenance h c mt ca cands g)) = edges g \<and>
   sync_with_provenance h c mt ca cands g = sync_with_provenance h c mt ca [] g"
proof -
  assume ex: "has_node g h"
  have *: "\<exists>g1. sync_with_provenance h c mt ca cs g = (Returned (empty_result False), g1) \<and>
      nodes g1 = nodes g \<and> edges g1 = edges g \<and>
      g1 = snd (add_memory_node h c mt ca g)" for cs
  proof -
    obtain b g1 where am: "add_memory_node h c mt ca g = (Returned b, g1)"
      and f: "edges g1 = edges g"
      and t: "b \<longrightarrow> \<not> has_node g h \<and> (\<exists>n. n_hash n = h \<and> nodes g1 = nodes g @ [n])"
      and u: "\<not> b \<longrightarrow> nodes g1 = nodes g"
      by (rule add_memory_node_effect)
    from t ex have nb: "\<not> b" by blast
    have "sync_with_provenance h c mt ca cs g = (Returned (empty_result False), g1)"
      unfolding sync_with_provenance_def
      by (subst and_then_Returned [where m = "add_memory_node h c mt ca", OF am])
         (simp add: Let_def empty_result_def nb)
    with f u nb am show ?thesis by simp
  qed
  from * [of cands] * [of "[]"] show ?thesis
    by (auto simp: empty_result_def)
qed

text \<open>The hash \<open>H1\<close> is synced, then synced again with a candidate that scores 0.95.\<close>

theorem sync_existing_node_witness:
  "has_node (run_calls [SyncWithProvenance (lit ''H1'') (lit ''Paris'') None None [(lit ''H0'', 0.95)]]
      (fresh_store [])) (lit ''H1'') \<and>
   fst (sync_with_provenance (lit ''H1'') (lit ''Paris'') None None [(lit ''H2'', 0.95)]
      (run_calls [SyncWithProvenance (lit ''H1'') (lit ''Paris'') None None [(lit ''H0'', 0.95)]]
         (fresh_store []))) =
     Returned \<lparr>node_created = False, relates_to = [], supersedes = [], contradicts = []\<rparr> \<and>
   length (edges (snd (sync_with_provenance (lit ''H1'') (lit ''Paris'') None None [(lit ''H2'', 0.95)]
      (run_calls [SyncWithProvenance (lit ''H1'') (lit ''Paris'') None None [(lit ''H0'', 0.95)]]
         (fresh_store []))))) = 1"
proof -
  have h: "has_node (run_calls [SyncWithProvenance (lit ''H1'') (lit ''Paris'') None None [(lit ''H0'', 0.95)]]
      (fresh_store [])) (lit ''H1'')"
    by code_simp
  have e: "length (edges (run_calls [SyncWithProvenance (lit ''H1'') (lit ''Paris'') None None [(lit ''H0'', 0.95)]]
      (fresh_store []))) = 1"
    by code_simp
  note t = sync_existing_node [OF h, of "lit ''Paris''" None None "[(lit ''H2'', 0.95)]"]
  from t have a: "fst (sync_with_provenance (lit ''H1'') (lit ''Paris'') None None [(lit ''H2'', 0.95)]
      (run_calls [SyncWithProvenance (lit ''H1'') (lit ''Paris'') None None [(lit ''H0'', 0.95)]]
         (fresh_store []))) =
     Returned \<lparr>node_created = False, relates_to = [], supersedes = [], contradicts = []\<rparr>"
    by (rule conjunct1)
  from t have "edges (snd (sync_with_provenance (lit ''H1'') (lit ''Paris'') None None [(lit ''H2'', 0.95)]
      (run_calls [SyncWithProvenance (lit ''H1'') (lit ''Paris'') None None [(lit ''H0'', 0.95)]]
         (fresh_store [])))) =
     edges (run_calls [SyncWithProvenance (lit ''H1'') (lit ''Paris'') None None [(lit ''H0'', 0.95)]]
         (fresh_store []))"
    by blast
  with e have b: "length (edges (snd (sync_with_provenance (lit ''H1'') (lit ''Paris'') None None [(lit ''H2'', 0.95)]
      (run_calls [SyncWithProvenance (lit ''H1'') (lit ''Paris'') None None [(lit ''H0'', 0.95)]]
         (fresh_store []))))) = 1"
    by simp
  from h a b show ?thesis by blast
qed

section \<open>A candidate that is the new memory itself\<close>




section \<open>Operations that only read\<close>

lemma keeps_ret: "keeps f (ret v)"
  by (simp add: keeps_def)

lemma keeps_and_then: "keeps f m \<Longrightarrow> (\<And>v. keeps f (k v)) \<Longrightarrow> keeps f (and_then m k)"
  by (auto simp: keeps_def and_then_def split: prod.splits outcome.splits) (metis snd_conv)+

lemma keeps_try_except: "keeps f m \<Longrightarrow> (\<And>e. keeps f (h e)) \<Longrightarrow> keeps f (try_except m h)"
  by (auto simp: keeps_def try_except_def split: prod.splits outcome.splits) (metis snd_conv)+

lemma keeps_for_each: "(\<And>x r. keeps f (body x r)) \<Longrightarrow> keeps f (for_each xs body r)"
  by (induction xs arbitrary: r) (auto intro: keeps_ret keeps_and_then)

lemma keeps_get_next_0: "keeps f (get_next_0 res)"
  by (cases res) (simp_all add: keeps_def)

lemma keeps_edges_execute:
  "(\<And>a b r. st \<noteq> MatchCreateEdge a b r) \<Longrightarrow> keeps edges (execute q st)"
  by (cases st) (auto simp: keeps_def execute_def split: option.splits)

lemma keeps_nodes_execute:
  "(\<And>n. st \<noteq> CreateNode n) \<Longrightarrow> keeps nodes (execute q st)"
  by (cases st) (auto simp: keeps_def execute_def split: option.splits)

lemma keeps_edges_get_stats: "keeps edges get_stats"
  unfolding get_stats_def count_edge_type_def [abs_def]
  by (intro keeps_try_except keeps_and_then keeps_for_each keeps_ret keeps_get_next_0
        keeps_edges_execute) simp_all

lemma keeps_nodes_get_stats: "keeps nodes get_stats"
  unfolding get_stats_def count_edge_type_def [abs_def]
  by (intro keeps_try_except keeps_and_then keeps_for_each keeps_ret keeps_get_next_0
        keeps_nodes_execute) simp_all

lemma keeps_edges_get_provenance_chain: "keeps edges (get_provenance_chain h d)"
  unfolding get_provenance_chain_def
  by (intro keeps_try_except keeps_and_then keeps_ret keeps_edges_execute) simp_all

lemma keeps_nodes_get_provenance_chain: "keeps nodes (get_provenance_chain h d)"
  unfolding get_provenance_chain_def
  by (intro keeps_try_except keeps_and_then keeps_ret keeps_nodes_execute) simp_all

section \<open>Self-loops\<close>

lemma sync_with_provenance_edges:
  obtains es where
    "edges (snd (sync_with_provenance h c mt ca cands g)) = edges g @ es"
    "\<forall>e \<in> set es. e_src e = h \<and> e_dst e \<noteq> h"
proof (cases rule: sync_with_provenance_cases [of h c mt ca cands g])
  case (existing g1)
  then show ?thesis using that [of "[]"] by simp
next
  case (created n g1 r' g')
  from created(7) obtain es where
    e: "edges g' = edges g1 @ es"
    and s: "list_all (\<lambda>e. e_src e = h \<and> has_node g' h \<and> has_node g' (e_dst e)) es"
    and d: "set (map e_dst es) \<subseteq> set (others h (take MAX_RELATIONS_PER_MEMORY cands))"
    unfolding sync_effect_def by auto
  have "\<forall>e \<in> set es. e_src e = h \<and> e_dst e \<noteq> h"
    using s d self_not_in_others [of h "take MAX_RELATIONS_PER_MEMORY cands"]
    by (auto simp: list_all_iff)
  with e created(4,6) show ?thesis using that [of es] by simp
qed

lemma run_call_no_self_loop:
  assumes "no_self_loop g" "distinct_endpoints c"
  shows "no_self_loop (run_call c g)"
proof (cases c)
  case (NodeExists h)
  with assms show ?thesis by (simp add: node_exists_eq no_self_loop_def)
next
  case (AddMemoryNode h t mt ca)
  obtain b g1 where "add_memory_node h t mt ca g = (Returned b, g1)" "edges g1 = edges g"
    by (rule add_memory_node_effect)
  with assms AddMemoryNode show ?thesis by (simp add: no_self_loop_def)
next
  case (AddRelatesTo a b s ca)
  with assms show ?thesis by (auto simp: add_relates_to_eq no_self_loop_def list_all_iff)
next
  case (AddSupersedes a b r ca)
  with assms show ?thesis by (auto simp: add_supersedes_eq no_self_loop_def list_all_iff)
next
  case (AddContradicts a b r da)
  with assms show ?thesis by (auto simp: add_contradicts_eq no_self_loop_def list_all_iff)
next
  case (EnsureNodeExists h)
  obtain b g1 where "ensure_node_exists h g = (Returned b, g1)" "edges g1 = edges g"
    by (rule ensure_node_exists_effect)
  with assms EnsureNodeExists show ?thesis by (simp add: no_self_loop_def)
next
  case (SyncWithProvenance h t mt ca cands)
  obtain es where "edges (snd (sync_with_provenance h t mt ca cands g)) = edges g @ es"
    "\<forall>e \<in> set es. e_src e = h \<and> e_dst e \<noteq> h"
    by (rule sync_with_provenance_edges)
  with assms SyncWithProvenance show ?thesis by (auto simp: no_self_loop_def list_all_iff)
next
  case (GetProvenanceChain h d)
  with assms keeps_edges_get_provenance_chain [of h d] show ?thesis
    by (simp add: no_self_loop_def keeps_def)
next
  case GetStats
  with assms keeps_edges_get_stats show ?thesis
    by (simp add: no_self_loop_def keeps_def)
qed

text \<open>
  C6, as the claim states it, fails: after \<open>add_memory_node\<close> of \<open>A\<close>, each of the direct
  calls \<open>add_relates_to(A, A, 1.0)\<close>, \<open>add_supersedes(A, A)\<close> and \<open>add_contradicts(A, A)\<close>
  matches the node \<open>A\<close> for both ends and creates an edge from \<open>A\<close> to \<open>A\<close>. All the hashes
  of these calls are plain.
\<close>

theorem self_loop_counterexample:
  "list_all plain_call self_loop_calls \<and>
   map e_src (edges (run_calls self_loop_calls (fresh_store []))) = [lit ''A'', lit ''A'', lit ''A''] \<and>
   map e_dst (edges (run_calls self_loop_calls (fresh_store []))) = [lit ''A'', lit ''A'', lit ''A''] \<and>
   label (e_rel (edges (run_calls self_loop_calls (fresh_store [])) ! 0)) = ''RELATES_TO'' \<and>
   label (e_rel (edges (run_calls self_loop_calls (fresh_store [])) ! 1)) = ''SUPERSEDES'' \<and>
   label (e_rel (edges (run_calls self_loop_calls (fresh_store [])) ! 2)) = ''CONTRADICTS'' \<and>
   \<not> no_self_loop (run_calls self_loop_calls (fresh_store []))"
  by code_simp

text \<open>
  C6, amended. From a state without self-loops, every sequence of public operations in
  which the hashes and timestamps of every call are plain and each direct call of
  \<open>add_relates_to\<close>, \<open>add_supersedes\<close> or \<open>add_contradicts\<close> has two different hashes reaches
  a state in which every edge has a source different from its target. (The three edge
  primitives do not compare their two hashes; of the operations only
  \<open>sync_with_provenance\<close> leaves out the candidate that is the new hash.)
\<close>

theorem no_self_loop_reachable:
  "no_self_loop g \<Longrightarrow> list_all plain_call cs \<Longrightarrow> list_all distinct_endpoints cs \<Longrightarrow>
   no_self_loop (run_calls cs g)"
proof (induction cs arbitrary: g)
  case Nil
  then show ?case by (simp add: run_calls_def)
next
  case (Cons c cs)
  from Cons.prems have "no_self_loop (run_call c g)"
    by (simp add: run_call_no_self_loop)
  from Cons.IH [OF this] Cons.prems(2,3) show ?case
    by (simp add: run_calls_def)
qed

text \<open>
  Two syncs whose candidate lists contain the new hash itself, a direct \<open>add_contradicts\<close>
  between two different hashes and a \<open>get_stats\<close>, all with plain hashes: three edges, none
  of them a self-loop.
\<close>

theorem no_self_loop_reachable_witness:
  "no_self_loop (fresh_store []) \<and> list_all plain_call mixed_calls \<and>
   list_all distinct_endpoints mixed_calls \<and>
   length (edges (run_calls mixed_calls (fresh_store []))) = 3 \<and>
   no_self_loop (run_calls mixed_calls (fresh_store []))"
proof -
  have a: "no_self_loop (fresh_store [])"
    by (simp add: no_self_loop_def fresh_store_def)
  have p: "list_all plain_call mixed_calls"
    by code_simp
  have b: "list_all distinct_endpoints mixed_calls"
    by code_simp
  have c: "length (edges (run_calls mixed_calls (fresh_store []))) = 3"
    by code_simp
  from no_self_loop_reachable [OF a p b] a p b c show ?thesis by blast
qed

section \<open>Stub nodes\<close>



text \<open>
  The loop calls \<open>ensure_node_exists\<close> before it looks at the score: the sync of \<open>H4\<close> with
  the only candidate \<open>H5\<close> at 0.50 leaves a stub for \<open>H5\<close> and no edge.
\<close>

lemma stub_below_threshold:
  "map n_hash (nodes (run_calls
      [SyncWithProvenance (lit ''H4'') (lit ''text'') None None [(lit ''H5'', 0.5)]] (fresh_store [])))
     = [lit ''H4'', lit ''H5''] \<and>
   map n_memory_type (nodes (run_calls
      [SyncWithProvenance (lit ''H4'') (lit ''text'') None None [(lit ''H5'', 0.5)]] (fresh_store [])))
     = [lit ''unknown'', lit ''stub''] \<and>
   edges (run_calls
      [SyncWithProvenance (lit ''H4'') (lit ''text'') None None [(lit ''H5'', 0.5)]] (fresh_store []))
     = []"
  by code_simp



section \<open>A true return without an edge\<close>

text \<open>
  C9. A true return of an edge primitive does not say that an edge was created: when the
  store does not fail and one of the two hashes has no node, each of \<open>add_relates_to\<close>,
  \<open>add_supersedes\<close> and \<open>add_contradicts\<close> returns \<open>True\<close> and the edges of the store are what
  they were. So \<open>sync_with_provenance\<close> can record a hash without an edge: in a fresh store
  whose fourth statement (the creation of the stub for \<open>H9\<close>) fails, the sync of \<open>H8\<close> with
  the candidate \<open>H9\<close> records \<open>H9\<close> in \<open>relates_to\<close> (at 0.80) or in \<open>supersedes\<close> (at 0.95)
  and the store has no edge.
\<close>

theorem true_without_edge:
  "(next_fault g = None \<and> (\<not> has_node g a \<or> \<not> has_node g b) \<longrightarrow>
      fst (add_relates_to a b s ca g) = Returned True \<and>
      edges (snd (add_relates_to a b s ca g)) = edges g \<and>
      fst (add_supersedes a b r ca g) = Returned True \<and>
      edges (snd (add_supersedes a b r ca g)) = edges g \<and>
      fst (add_contradicts a b r ca g) = Returned True \<and>
      edges (snd (add_contradicts a b r ca g)) = edges g) \<and>
   fst (sync_with_provenance (lit ''H8'') (lit ''text'') None None [(lit ''H9'', 0.8)]
          (fresh_store [None, None, None, Some QueryFailure])) =
     Returned \<lparr>node_created = True, relates_to = [lit ''H9''], supersedes = [], contradicts = []\<rparr> \<and>
   edges (snd (sync_with_provenance (lit ''H8'') (lit ''text'') None None [(lit ''H9'', 0.8)]
          (fresh_store [None, None, None, Some QueryFailure]))) = [] \<and>
   fst (sync_with_provenance (lit ''H8'') (lit ''text'') None None [(lit ''H9'', 0.95)]
          (fresh_store [None, None, None, Some QueryFailure])) =
     Returned \<lparr>node_created = True, relates_to = [], supersedes = [lit ''H9''], contradicts = []\<rparr> \<and>
   edges (snd (sync_with_provenance (lit ''H8'') (lit ''text'') None None [(lit ''H9'', 0.95)]
          (fresh_store [None, None, None, Some QueryFailure]))) = []"
proof -
  have a: "next_fault g = None \<and> (\<not> has_node g a \<or> \<not> has_node g b) \<longrightarrow>
      fst (add_relates_to a b s ca g) = Returned True \<and>
      edges (snd (add_relates_to a b s ca g)) = edges g \<and>
      fst (add_supersedes a b r ca g) = Returned True \<and>
      edges (snd (add_supersedes a b r ca g)) = edges g \<and>
      fst (add_contradicts a b r ca g) = Returned True \<and>
      edges (snd (add_contradicts a b r ca g)) = edges g"
    by (auto simp: add_relates_to_eq add_supersedes_eq add_contradicts_eq has_node_def)
  have b: "fst (sync_with_provenance (lit ''H8'') (lit ''text'') None None [(lit ''H9'', 0.8)]
          (fresh_store [None, None, None, Some QueryFailure])) =
     Returned \<lparr>node_created = True, relates_to = [lit ''H9''], supersedes = [], contradicts = []\<rparr>"
    by code_simp
  have c: "edges (snd (sync_with_provenance (lit ''H8'') (lit ''text'') None None [(lit ''H9'', 0.8)]
          (fresh_store [None, None, None, Some QueryFailure]))) = []"
    by code_simp
  have d: "fst (sync_with_provenance (lit ''H8'') (lit ''text'') None None [(lit ''H9'', 0.95)]
          (fresh_store [None, None, None, Some QueryFailure])) =
     Returned \<lparr>node_created = True, relates_to = [], supersedes = [lit ''H9''], contradicts = []\<rparr>"
    by code_simp
  have e: "edges (snd (sync_with_provenance (lit ''H8'') (lit ''text'') None None [(lit ''H9'', 0.95)]
          (fresh_store [None, None, None, Some QueryFailure]))) = []"
    by code_simp
  from a b c d e show ?thesis by blast
qed

text \<open>In a fresh store no hash has a node, and the call returns \<open>True\<close>.\<close>

theorem true_without_edge_witness:
  "next_fault (fresh_store []) = None \<and> \<not> has_node (fresh_store []) (lit ''A'') \<and>
   fst (add_relates_to (lit ''A'') (lit ''B'') 0.8 None (fresh_store [])) = Returned True \<and>
   edges (snd (add_relates_to (lit ''A'') (lit ''B'') 0.8 None (fresh_store []))) = [] \<and>
   fst (add_supersedes (lit ''A'') (lit ''B'') (lit ''why'') None (fresh_store [])) = Returned True \<and>
   fst (add_contradicts (lit ''A'') (lit ''B'') (lit ''why'') None (fresh_store [])) = Returned True"
proof -
  have a: "next_fault (fresh_store []) = None"
    by (simp add: next_fault_def fresh_store_def)
  have b: "\<not> has_node (fresh_store []) (lit ''A'')"
    by (simp add: has_node_def matching_def fresh_store_def)
  have c: "edges (fresh_store []) = []"
    by (simp add: fresh_store_def)
  from true_without_edge [of "fresh_store []" "lit ''A''" "lit ''B''" "0.8" None "lit ''why''"] a b c
  show ?thesis by simp
qed

section \<open>What reaches the query text\<close>

lemma count_sq_append [simp]: "count_sq (xs @ ys) = count_sq xs + count_sq ys"
  by (simp add: count_sq_def)

lemma count_sq_sanitize_string [simp]: "count_sq (sanitize_string x n) = 0"
proof -
  have "\<forall>c \<in> set (sanitize_string x n). c \<noteq> 39"
    using sanitize_string_clean [of _ x n] by (auto simp: quote_like_def)
  then show ?thesis by (simp add: count_sq_def filter_empty_conv)
qed

lemma of_char_eq_39: "(of_char c :: nat) = 39 \<longleftrightarrow> c = CHR 0x27"
proof
  assume h: "(of_char c :: nat) = 39"
  have "c = char_of (of_char c :: nat)" by simp
  also have "\<dots> = char_of (39 :: nat)" by (simp only: h)
  also have "\<dots> = CHR 0x27" by code_simp
  finally show "c = CHR 0x27" .
next
  assume "c = CHR 0x27"
  then show "(of_char c :: nat) = 39" by simp
qed

lemma count_sq_lit: "count_sq (lit cs) = length (filter (\<lambda>c. c = CHR 0x27) cs)"
  by (simp add: count_sq_def lit_def filter_map o_def of_char_eq_39)

lemma count_sq_relates_to_query:
  "count_sq (render ff fi (relates_to_query a b s cr)) =
     6 + count_sq a + count_sq b + count_sq (ff s) + count_sq cr"
  by (simp add: render_def relates_to_query_def count_sq_lit sq_def nl_def sp_def)

lemma count_sq_supersedes_query:
  "count_sq (render ff fi (supersedes_query a b rs cr)) =
     8 + count_sq a + count_sq b + count_sq rs + count_sq cr"
  by (simp add: render_def supersedes_query_def count_sq_lit sq_def nl_def sp_def)

lemma count_sq_contradicts_query:
  "count_sq (render ff fi (contradicts_query a b dt rs)) =
     8 + count_sq a + count_sq b + count_sq dt + count_sq rs"
  by (simp add: render_def contradicts_query_def count_sq_lit sq_def nl_def sp_def)

lemma count_sq_create_node_query:
  "count_sq (render ff fi (create_node_query h pv cr ty)) =
     8 + count_sq h + count_sq pv + count_sq cr + count_sq ty"
  by (simp add: render_def create_node_query_def count_sq_lit sq_def nl_def sp_def)

lemma last_sent_add_memory_node:
  "\<not> (next_fault g = None \<and> has_node g h) \<Longrightarrow>
   last (sent (snd (add_memory_node h c mt ca g))) =
     create_node_query h (sanitize_string (Some c) 200) (py_or ca (now g))
       (sanitize_string (Some (py_or mt (lit ''unknown''))) 50)"
  by (auto simp: add_memory_node_eq Let_def)

text \<open>
  C10. The hashes and the timestamp a caller gives go into the query text as they are:
  the text that \<open>add_relates_to\<close>, \<open>add_supersedes\<close>, \<open>add_contradicts\<close> and \<open>add_memory_node\<close>
  hand to the store is the f-string with the raw hashes and the raw \<open>created_at\<close> (or
  \<open>detected_at\<close>), and with the sanitized reason, resolution, content preview and memory
  type. So every single quote of a hash or of the timestamp is in the text: the text has
  the quotes of its template (6 or 8), those of the two hashes and of the timestamp, and
  none from a sanitized field.
\<close>

theorem raw_interpolation:
  "last (sent (snd (add_relates_to a b s ca g))) = relates_to_query a b s (py_or ca (now g)) \<and>
   last (sent (snd (add_supersedes a b r ca g))) =
     supersedes_query a b (sanitize_string (Some r) 100) (py_or ca (now g)) \<and>
   last (sent (snd (add_contradicts a b r ca g))) =
     contradicts_query a b (py_or ca (now g)) (sanitize_string (Some r) 100) \<and>
   (\<not> (next_fault g = None \<and> has_node g a) \<longrightarrow>
      last (sent (snd (add_memory_node a c mt ca g))) =
        create_node_query a (sanitize_string (Some c) 200) (py_or ca (now g))
          (sanitize_string (Some (py_or mt (lit ''unknown''))) 50)) \<and>
   count_sq (render ff fi (relates_to_query a b s cr)) =
     6 + count_sq a + count_sq b + count_sq (ff s) + count_sq cr \<and>
   count_sq (render ff fi (supersedes_query a b (sanitize_string (Some r) 100) cr)) =
     8 + count_sq a + count_sq b + count_sq cr \<and>
   count_sq (render ff fi (contradicts_query a b cr (sanitize_string (Some r) 100))) =
     8 + count_sq a + count_sq b + count_sq cr \<and>
   count_sq (render ff fi (create_node_query a (sanitize_string (Some c) 200) cr
       (sanitize_string (Some (py_or mt (lit ''unknown''))) 50))) =
     8 + count_sq a + count_sq cr"
proof -
  have 1: "last (sent (snd (add_relates_to a b s ca g))) = relates_to_query a b s (py_or ca (now g))"
    by (simp add: add_relates_to_eq)
  have 2: "last (sent (snd (add_supersedes a b r ca g))) =
     supersedes_query a b (sanitize_string (Some r) 100) (py_or ca (now g))"
    by (simp add: add_supersedes_eq)
  have 3: "last (sent (snd (add_contradicts a b r ca g))) =
     contradicts_query a b (py_or ca (now g)) (sanitize_string (Some r) 100)"
    by (simp add: add_contradicts_eq)
  have 4: "\<not> (next_fault g = None \<and> has_node g a) \<longrightarrow>
      last (sent (snd (add_memory_node a c mt ca g))) =
        create_node_query a (sanitize_string (Some c) 200) (py_or ca (now g))
          (sanitize_string (Some (py_or mt (lit ''unknown''))) 50)"
    using last_sent_add_memory_node [of g a c mt ca] by blast
  have 5: "count_sq (render ff fi (supersedes_query a b (sanitize_string (Some r) 100) cr)) =
     8 + count_sq a + count_sq b + count_sq cr"
    by (simp add: count_sq_supersedes_query)
  have 6: "count_sq (render ff fi (contradicts_query a b cr (sanitize_string (Some r) 100))) =
     8 + count_sq a + count_sq b + count_sq cr"
    by (simp add: count_sq_contradicts_query)
  have 7: "count_sq (render ff fi (create_node_query a (sanitize_string (Some c) 200) cr
       (sanitize_string (Some (py_or mt (lit ''unknown''))) 50))) =
     8 + count_sq a + count_sq cr"
    by (simp add: count_sq_create_node_query)
  from 1 2 3 4 5 6 7 count_sq_relates_to_query [of ff fi a b s cr] show ?thesis by blast
qed

text \<open>
  A reason and a timestamp with one single quote each: the quote of the reason \<open>it's\<close> is
  removed, the quote of the timestamp \<open>x'y\<close> is in the text handed to the store, which has
  nine single quotes.
\<close>

theorem raw_interpolation_witness:
  "\<not> (next_fault (fresh_store []) = None \<and> has_node (fresh_store []) (lit ''N'')) \<and>
   last (sent (snd (add_memory_node (lit ''N'') [105, 116, 39, 115] None (Some [120, 39, 121])
      (fresh_store [])))) =
     create_node_query (lit ''N'') (lit ''its'') [120, 39, 121] (lit ''unknown'') \<and>
   render (\<lambda>x. []) (\<lambda>i. []) (last (sent (snd (add_supersedes (lit ''N'') (lit ''O'')
      [105, 116, 39, 115] (Some [120, 39, 121]) (fresh_store []))))) =
     lit (nl @ sp 16 @ ''MATCH (new:Memory {hash: '' @ sq @ ''N'' @ sq @ ''}), (old:Memory {hash: ''
          @ sq @ ''O'' @ sq @ ''})'' @ nl @ sp 16 @ ''CREATE (new)-[:SUPERSEDES {reason: '' @ sq
          @ ''its'' @ sq @ '', created_at: '' @ sq @ ''x'' @ sq @ ''y'' @ sq @ ''}]->(old)'' @ nl @ sp 12) \<and>
   count_sq (render (\<lambda>x. []) (\<lambda>i. []) (supersedes_query (lit ''N'') (lit ''O'')
      (sanitize_string (Some [105, 116, 39, 115]) 100) [120, 39, 121])) = 9"
proof -
  have a: "\<not> (next_fault (fresh_store []) = None \<and> has_node (fresh_store []) (lit ''N''))"
    by (simp add: has_node_def matching_def fresh_store_def)
  have b: "sanitize_string (Some [105, 116, 39, 115]) 200 = lit ''its''"
    "py_or (Some [120, 39, 121]) (now (fresh_store [])) = [120, 39, 121]"
    "sanitize_string (Some (py_or None (lit ''unknown''))) 50 = lit ''unknown''"
    "count_sq (lit ''N'') = 0" "count_sq (lit ''O'') = 0" "count_sq [120, 39, 121] = 1"
    by code_simp+
  have c: "render (\<lambda>x. []) (\<lambda>i. []) (last (sent (snd (add_supersedes (lit ''N'') (lit ''O'')
      [105, 116, 39, 115] (Some [120, 39, 121]) (fresh_store []))))) =
     lit (nl @ sp 16 @ ''MATCH (new:Memory {hash: '' @ sq @ ''N'' @ sq @ ''}), (old:Memory {hash: ''
          @ sq @ ''O'' @ sq @ ''})'' @ nl @ sp 16 @ ''CREATE (new)-[:SUPERSEDES {reason: '' @ sq
          @ ''its'' @ sq @ '', created_at: '' @ sq @ ''x'' @ sq @ ''y'' @ sq @ ''}]->(old)'' @ nl @ sp 12)"
    by code_simp
  note t = raw_interpolation [of "lit ''N''" "lit ''O''" 0 "Some [120, 39, 121]" "fresh_store []"
      "[105, 116, 39, 115]" "[105, 116, 39, 115]" None "\<lambda>x. []" "\<lambda>i. []" "[120, 39, 121]"]
  from t a b have d: "last (sent (snd (add_memory_node (lit ''N'') [105, 116, 39, 115] None (Some [120, 39, 121])
      (fresh_store [])))) =
     create_node_query (lit ''N'') (lit ''its'') [120, 39, 121] (lit ''unknown'')"
    by simp
  from t b have e: "count_sq (render (\<lambda>x. []) (\<lambda>i. []) (supersedes_query (lit ''N'') (lit ''O'')
      (sanitize_string (Some [105, 116, 39, 115]) 100) [120, 39, 121])) = 9"
    by simp
  from a c d e show ?thesis by blast
qed

section \<open>Failures of the store\<close>

lemma fst_and_then:
  "fst (and_then m f g) =
     (case fst (m g) of Raised e \<Rightarrow> Raised e | Returned v \<Rightarrow> fst (f v (snd (m g))))"
  by (simp add: and_then_def split: prod.splits outcome.splits)

lemma fst_try_except:
  "fst (try_except m h g) =
     (case fst (m g) of Raised e \<Rightarrow> fst (h e (snd (m g))) | Returned v \<Rightarrow> Returned v)"
  by (simp add: try_except_def split: prod.splits outcome.splits)

lemma try_except_total: "\<exists>v. fst (try_except m (\<lambda>e. ret (d e)) g) = Returned v"
  by (simp add: fst_try_except split: outcome.splits)

lemma first_fault_Nil [simp]: "first_fault n [] = None"
  by (cases n) simp_all

lemma first_fault_Suc:
  "first_fault (Suc n) (faults g) =
     (case next_fault g of Some e \<Rightarrow> Some e | None \<Rightarrow> first_fault n (tl (faults g)))"
  by (cases "faults g") (auto simp: next_fault_def split: option.splits)

lemma edge_count_handed [simp]: "edge_count (handed q g) l = edge_count g l"
  by (simp add: edge_count_def)

lemma count_edge_type_eq:
  "count_edge_type t st g =
     (case next_fault g of
        Some e \<Rightarrow> (Raised e, handed (count_edges_query t) g)
      | None \<Rightarrow> (Returned (st @ [(''edges_'' @ lower t, edge_count g t)]),
                 handed (count_edges_query t) g))"
  by (simp add: count_edge_type_def and_then_def execute_def edge_count_def split: option.splits)

lemma count_loop_fst:
  "fst (for_each ts count_edge_type st g) =
     (case first_fault (length ts) (faults g) of
        Some e \<Rightarrow> Raised e
      | None \<Rightarrow> Returned (st @ map (\<lambda>t. (''edges_'' @ lower t, edge_count g t)) ts))"
proof (induction ts arbitrary: st g)
  case Nil
  show ?case by simp
next
  case (Cons t ts)
  show ?case
  proof (cases "next_fault g")
    case None
    then have "fst (for_each (t # ts) count_edge_type st g) =
        fst (for_each ts count_edge_type (st @ [(''edges_'' @ lower t, edge_count g t)])
               (handed (count_edges_query t) g))"
      by (simp add: and_then_def count_edge_type_eq)
    with None Cons.IH [of "st @ [(''edges_'' @ lower t, edge_count g t)]" "handed (count_edges_query t) g"]
    show ?thesis
      by (simp add: first_fault_Suc split: option.splits)
  next
    case (Some e)
    then show ?thesis
      by (simp add: and_then_def count_edge_type_eq first_fault_Suc)
  qed
qed

lemma lower_edge_types:
  "lower ''RELATES_TO'' = ''relates_to''" "lower ''SUPERSEDES'' = ''supersedes''"
  "lower ''CONTRADICTS'' = ''contradicts''" "lower ''CAUSED_BY'' = ''caused_by''"
  "lower ''DERIVED_FROM'' = ''derived_from''"
  by code_simp+

lemma get_stats_fst:
  "fst (get_stats g) =
     (case first_fault 6 (faults g) of
        Some e \<Rightarrow> Returned (StatsError e)
      | None \<Rightarrow> Returned (Stats (full_stats g)))"
proof (cases "next_fault g")
  case (Some e)
  then have "first_fault 6 (faults g) = Some e"
    using first_fault_Suc [of 5 g] by simp
  with Some show ?thesis
    by (simp add: get_stats_def try_except_def and_then_def execute_def)
next
  case None
  let ?g1 = "handed count_nodes_query g"
  let ?loop = "for_each edge_types count_edge_type [(''nodes'', length (nodes g))]"
  have ff: "first_fault 6 (faults g) = first_fault 5 (faults ?g1)"
    using first_fault_Suc [of 5 g] None by simp
  have unf: "fst (get_stats g) =
      (case fst (?loop ?g1) of
         Raised e \<Rightarrow> Returned (StatsError e)
       | Returned st \<Rightarrow> Returned (Stats (st @ [(''total_edges'',
               sum_list (map snd (filter (\<lambda>(k, v). startswith k ''edges_'') st)))])))"
    using None
    by (simp add: get_stats_def fst_try_except fst_and_then execute_def split: outcome.splits)
  have len: "length edge_types = 5" by (simp add: edge_types_def)
  show ?thesis
  proof (cases "first_fault 5 (faults ?g1)")
    case (Some e)
    with count_loop_fst [of edge_types "[(''nodes'', length (nodes g))]" ?g1] len
    have "fst (?loop ?g1) = Raised e" by simp
    with unf ff Some show ?thesis by simp
  next
    case None
    with count_loop_fst [of edge_types "[(''nodes'', length (nodes g))]" ?g1] len
    have "fst (?loop ?g1) =
        Returned ([(''nodes'', length (nodes g))] @
          map (\<lambda>t. (''edges_'' @ lower t, edge_count g t)) edge_types)"
      by simp
    with unf ff None show ?thesis
      by (simp add: edge_types_def lower_edge_types full_stats_def startswith_def)
  qed
qed

lemma get_provenance_chain_fault:
  "next_fault g \<noteq> None \<Longrightarrow> fst (get_provenance_chain h d g) = Returned []"
  by (auto simp: get_provenance_chain_def try_except_def and_then_def execute_def)

lemma two_faults:
  assumes "faults g = Some e1 # Some e2 # fs"
  shows "fst (add_memory_node h c mt ca g) = Returned False"
    and "fst (ensure_node_exists h g) = Returned False"
    and "fst (sync_with_provenance h c mt ca cands g) = Returned (empty_result False)"
proof -
  from assms have nf: "next_fault g = Some e1" "next_fault (handed q g) = Some e2" for q
    by (simp_all add: next_fault_def)
  from nf show a: "fst (add_memory_node h c mt ca g) = Returned False"
    by (simp add: add_memory_node_eq Let_def)
  from nf show "fst (ensure_node_exists h g) = Returned False"
    by (simp add: ensure_node_exists_eq Let_def)
  from a show "fst (sync_with_provenance h c mt ca cands g) = Returned (empty_result False)"
    by (simp add: sync_with_provenance_def fst_and_then empty_result_def Let_def)
qed


text \<open>
  C8. No public operation lets an exception out: for every input and every state of the
  store, whatever statements are going to fail, each of \<open>node_exists\<close>, \<open>add_memory_node\<close>,
  \<open>add_relates_to\<close>, \<open>add_supersedes\<close>, \<open>add_contradicts\<close>, \<open>ensure_node_exists\<close>,
  \<open>sync_with_provenance\<close>, \<open>get_provenance_chain\<close> and \<open>get_stats\<close> returns a value. When
  the statement of a one-statement operation fails, the value is \<open>False\<close>, or the empty
  list for \<open>get_provenance_chain\<close>; when both statements of \<open>add_memory_node\<close> or
  \<open>ensure_node_exists\<close> fail it is \<open>False\<close>, and \<open>sync_with_provenance\<close> then returns the
  empty result; \<open>get_stats\<close> returns the error marker with the first failure among its six
  statements, and all the counts when none of them fails, never a part of the counts.
\<close>

theorem no_exception_propagates:
  "(\<exists>v. fst (node_exists h g) = Returned v) \<and>
   (\<exists>v. fst (add_memory_node h c mt ca g) = Returned v) \<and>
   (\<exists>v. fst (add_relates_to a b s ca g) = Returned v) \<and>
   (\<exists>v. fst (add_supersedes a b r ca g) = Returned v) \<and>
   (\<exists>v. fst (add_contradicts a b r ca g) = Returned v) \<and>
   (\<exists>v. fst (ensure_node_exists h g) = Returned v) \<and>
   (\<exists>v. fst (sync_with_provenance h c mt ca cands g) = Returned v) \<and>
   (\<exists>v. fst (get_provenance_chain h d g) = Returned v) \<and>
   (\<exists>v. fst (get_stats g) = Returned v) \<and>
   (next_fault g \<noteq> None \<longrightarrow>
      fst (node_exists h g) = Returned False \<and>
      fst (add_relates_to a b s ca g) = Returned False \<and>
      fst (add_supersedes a b r ca g) = Returned False \<and>
      fst (add_contradicts a b r ca g) = Returned False \<and>
      fst (get_provenance_chain h d g) = Returned []) \<and>
   (\<forall>e1 e2 fs. faults g = Some e1 # Some e2 # fs \<longrightarrow>
      fst (add_memory_node h c mt ca g) = Returned False \<and>
      fst (ensure_node_exists h g) = Returned False \<and>
      fst (sync_with_provenance h c mt ca cands g) =
        Returned \<lparr>node_created = False, relates_to = [], supersedes = [], contradicts = []\<rparr>) \<and>
   (\<forall>e. first_fault 6 (faults g) = Some e \<longrightarrow> fst (get_stats g) = Returned (StatsError e)) \<and>
   (first_fault 6 (faults g) = None \<longrightarrow> fst (get_stats g) = Returned (Stats (full_stats g)))"
proof -
  have 1: "\<exists>v. fst (node_exists h g) = Returned v"
    by (auto simp: node_exists_eq)
  have 2: "\<exists>v. fst (add_memory_node h c mt ca g) = Returned v"
    by (rule add_memory_node_effect [where h = h and c = c and mt = mt and ca = ca and g = g]) simp
  have 3: "\<exists>v. fst (add_relates_to a b s ca g) = Returned v"
    by (auto simp: add_relates_to_eq)
  have 4: "\<exists>v. fst (add_supersedes a b r ca g) = Returned v"
    by (auto simp: add_supersedes_eq)
  have 5: "\<exists>v. fst (add_contradicts a b r ca g) = Returned v"
    by (auto simp: add_contradicts_eq)
  have 6: "\<exists>v. fst (ensure_node_exists h g) = Returned v"
    by (rule ensure_node_exists_effect [where c = h and g = g]) simp
  have 7: "\<exists>v. fst (sync_with_provenance h c mt ca cands g) = Returned v"
    by (cases rule: sync_with_provenance_cases [of h c mt ca cands g]) simp_all
  have 8: "\<exists>v. fst (get_provenance_chain h d g) = Returned v"
    unfolding get_provenance_chain_def by (rule try_except_total)
  have 9: "\<exists>v. fst (get_stats g) = Returned v"
    unfolding get_stats_def by (rule try_except_total)
  have 10: "next_fault g \<noteq> None \<longrightarrow>
      fst (node_exists h g) = Returned False \<and>
      fst (add_relates_to a b s ca g) = Returned False \<and>
      fst (add_supersedes a b r ca g) = Returned False \<and>
      fst (add_contradicts a b r ca g) = Returned False \<and>
      fst (get_provenance_chain h d g) = Returned []"
    by (simp add: node_exists_eq add_relates_to_eq add_supersedes_eq add_contradicts_eq
          get_provenance_chain_fault)
  have 11: "\<forall>e1 e2 fs. faults g = Some e1 # Some e2 # fs \<longrightarrow>
      fst (add_memory_node h c mt ca g) = Returned False \<and>
      fst (ensure_node_exists h g) = Returned False \<and>
      fst (sync_with_provenance h c mt ca cands g) =
        Returned \<lparr>node_created = False, relates_to = [], supersedes = [], contradicts = []\<rparr>"
  proof (intro allI impI)
    fix e1 e2 fs
    assume "faults g = Some e1 # Some e2 # fs"
    from two_faults [OF this]
    show "fst (add_memory_node h c mt ca g) = Returned False \<and>
      fst (ensure_node_exists h g) = Returned False \<and>
      fst (sync_with_provenance h c mt ca cands g) =
        Returned \<lparr>node_created = False, relates_to = [], supersedes = [], contradicts = []\<rparr>"
      by (simp add: empty_result_def)
  qed
  have 12: "\<forall>e. first_fault 6 (faults g) = Some e \<longrightarrow> fst (get_stats g) = Returned (StatsError e)"
    by (simp add: get_stats_fst)
  have 13: "first_fault 6 (faults g) = None \<longrightarrow> fst (get_stats g) = Returned (Stats (full_stats g))"
    by (simp add: get_stats_fst)
  from 1 2 3 4 5 6 7 8 9 10 11 12 13 show ?thesis by blast
qed

text \<open>
  A store whose next two statements fail, a store whose third statement fails, and a store
  that does not fail.
\<close>

theorem no_exception_propagates_witness:
  "next_fault (fresh_store [Some ConnectionFailure, Some QueryFailure]) \<noteq> None \<and>
   fst (node_exists (lit ''H'') (fresh_store [Some ConnectionFailure, Some QueryFailure]))
     = Returned False \<and>
   fst (add_relates_to (lit ''A'') (lit ''B'') 0.8 None
          (fresh_store [Some ConnectionFailure, Some QueryFailure])) = Returned False \<and>
   fst (get_provenance_chain (lit ''H'') 3 (fresh_store [Some ConnectionFailure, Some QueryFailure]))
     = Returned [] \<and>
   faults (fresh_store [Some ConnectionFailure, Some QueryFailure])
     = [Some ConnectionFailure, Some QueryFailure] \<and>
   fst (add_memory_node (lit ''H'') (lit ''text'') None None
          (fresh_store [Some ConnectionFailure, Some QueryFailure])) = Returned False \<and>
   fst (sync_with_provenance (lit ''H'') (lit ''text'') None None [(lit ''A'', 0.8)]
          (fresh_store [Some ConnectionFailure, Some QueryFailure]))
     = Returned \<lparr>node_created = False, relates_to = [], supersedes = [], contradicts = []\<rparr> \<and>
   first_fault 6 (faults (fresh_store [None, None, Some QueryFailure])) = Some QueryFailure \<and>
   fst (get_stats (fresh_store [None, None, Some QueryFailure])) = Returned (StatsError QueryFailure) \<and>
   first_fault 6 (faults (fresh_store [])) = None \<and>
   fst (get_stats (fresh_store [])) = Returned (Stats (full_stats (fresh_store [])))"
proof -
  let ?g = "fresh_store [Some ConnectionFailure, Some QueryFailure]"
  have a: "next_fault ?g \<noteq> None"
    by (simp add: next_fault_def fresh_store_def)
  have b: "faults ?g = [Some ConnectionFailure, Some QueryFailure]"
    by (simp add: fresh_store_def)
  have c: "first_fault 6 (faults (fresh_store [None, None, Some QueryFailure])) = Some QueryFailure"
    by code_simp
  have d: "first_fault 6 (faults (fresh_store [])) = None"
    by (simp add: fresh_store_def)
  note t1 = no_exception_propagates [of "lit ''H''" ?g "lit ''text''" None None "lit ''A''" "lit ''B''"
      "0.8" "lit ''why''" "[(lit ''A'', 0.8)]" 3]
  note t2 = no_exception_propagates [of "lit ''H''" "fresh_store [None, None, Some QueryFailure]"
      "lit ''text''" None None "lit ''A''" "lit ''B''" "0.8" "lit ''why''" "[(lit ''A'', 0.8)]" 3]
  note t3 = no_exception_propagates [of "lit ''H''" "fresh_store []"
      "lit ''text''" None None "lit ''A''" "lit ''B''" "0.8" "lit ''why''" "[(lit ''A'', 0.8)]" 3]
  from t1 a have e: "fst (node_exists (lit ''H'') ?g) = Returned False"
    "fst (add_relates_to (lit ''A'') (lit ''B'') 0.8 None ?g) = Returned False"
    "fst (get_provenance_chain (lit ''H'') 3 ?g) = Returned []"
    by blast+
  from t1 b have f: "fst (add_memory_node (lit ''H'') (lit ''text'') None None ?g) = Returned False"
    "fst (sync_with_provenance (lit ''H'') (lit ''text'') None None [(lit ''A'', 0.8)] ?g)
      = Returned \<lparr>node_created = False, relates_to = [], supersedes = [], contradicts = []\<rparr>"
    by blast+
  from t2 c have g: "fst (get_stats (fresh_store [None, None, Some QueryFailure]))
      = Returned (StatsError QueryFailure)"
    by blast
  from t3 d have h: "fst (get_stats (fresh_store [])) = Returned (Stats (full_stats (fresh_store [])))"
    by blast
  from a b c d e f g h show ?thesis by blast
qed

end
